theory Spec2Isabelle
  imports Complex_Main
begin

unbundle bit_operations_syntax

section \<open>The adaptive tree of libguiding (include/guiding/distributions/btree.h)\<close>

text \<open>
  The class \<^verbatim>\<open>BTreeDistribution<D, V>\<close> keeps a pool of nodes in a vector and links
  them by integer indices. The embedding below follows the C++ member by member.

  \<^item> The template parameter \<^verbatim>\<open>D\<close> is the first argument of every function;
    \<^verbatim>\<open>Arity\<close> is \<open>2 ^ D\<close>.
  \<^item> \<^verbatim>\<open>Float\<close>, which is declared outside the three source files, is modelled by
    \<open>real\<close>. Where IEEE arithmetic would leave the reals (a division by zero, the
    square root of a negative number, an overflow) the model stops with
    \<open>NotFinite\<close>. Rounding is modelled where a node accumulates a deposit
    (\<^verbatim>\<open>TreeNode::splat\<close>), in single precision, the precision of the literals
    \<^verbatim>\<open>0.002f\<close> and \<^verbatim>\<open>1.f\<close>; the other operations are exact.
  \<^item> The value type \<^verbatim>\<open>V\<close> is the scalar case, and \<^verbatim>\<open>guiding::target\<close>, which
    is declared outside the three source files, is the parameter \<open>tgt\<close>.
  \<^item> \<^verbatim>\<open>int\<close> and \<^verbatim>\<open>size_t\<close> indices are \<open>int\<close> and \<open>nat\<close>. A \<^verbatim>\<open>size_t\<close> stored
    in an \<^verbatim>\<open>int\<close> is taken modulo \<open>2 ^ 32\<close> into the range of the 32-bit \<^verbatim>\<open>int\<close>
    (\<open>int32\<close>), and so is \<^verbatim>\<open>1 << depth\<close>; a shift by 32 or more is
    \<open>UndefinedShift\<close>. An index outside the vector is \<open>OutOfRange\<close>: a negative
    \<^verbatim>\<open>int\<close> converted to \<^verbatim>\<open>size_t\<close> is beyond every vector. A failed
    \<^verbatim>\<open>assert(newIndex > index)\<close> is \<open>NotAscending\<close>, any other failed \<^verbatim>\<open>assert\<close> is
    \<open>AssertionFailed\<close>.
  \<^item> Recursions that the source does not bound carry a fuel argument and answer
    \<open>OutOfFuel\<close> when it is used up.
\<close>

datatype error =
  AssertionFailed | NotAscending | OutOfRange | OutOfFuel | NotFinite | UndefinedShift

text \<open>The value an integer has once it is stored in a 32-bit \<^verbatim>\<open>int\<close>.\<close>

definition int32 :: "int \<Rightarrow> int" where
  "int32 k = (k + 2 ^ 31) mod 2 ^ 32 - 2 ^ 31"

fun err_bind :: "error + 'a \<Rightarrow> ('a \<Rightarrow> error + 'b) \<Rightarrow> error + 'b" where
  "err_bind (Inl e) f = Inl e"
| "err_bind (Inr v) f = f v"

text \<open>
  Modelled from the spec: \<^verbatim>\<open>Float\<close> has the float width of the host; it is taken as
  IEEE single precision, the precision of the literals \<^verbatim>\<open>0.002f\<close> and \<^verbatim>\<open>1.f\<close> of the
  source. \<open>Float_ulp x\<close> is the spacing of the single-precision numbers
  around \<open>x\<close>: 24 significant bits, and \<open>2 ^ - 149\<close> for the subnormal numbers.
  \<open>Float_rnd x\<close> is the multiple of it nearest to \<open>x\<close>, the even one of two that are
  equally near, and \<open>Float_of\<close> stops where the rounded value is beyond the largest
  finite number.
\<close>

definition Float_ulp :: "real \<Rightarrow> real" where
  "Float_ulp x = 2 powr real_of_int (max (\<lfloor>log 2 \<bar>x\<bar>\<rfloor> - 23) (- 149))"

definition Float_rnd :: "real \<Rightarrow> real" where
  "Float_rnd x =
     (if x = 0 then 0
      else
        let q = Float_ulp x; m = x / q; f = \<lfloor>m\<rfloor>;
            k = (if m - real_of_int f < 1 / 2 then f
                 else if 1 / 2 < m - real_of_int f then f + 1
                 else if even f then f else f + 1)
        in real_of_int k * q)"

definition Float_of :: "real \<Rightarrow> error + real" where
  "Float_of x = (let y = Float_rnd x in if \<bar>y\<bar> < 2 ^ 128 then Inr y else Inl NotFinite)"

subsection \<open>Nodes\<close>

text \<open>
  \<^verbatim>\<open>struct TreeNode\<close>. The field \<^verbatim>\<open>value\<close> is called \<open>val\<close> here. The record is
  polymorphic in the scalar type, which is \<open>real\<close> throughout.
\<close>

record 'f TreeNode =
  children :: "int list"
  density :: 'f
  val :: 'f
  weight :: 'f

definition Arity :: "nat \<Rightarrow> nat" where
  "Arity D = 2 ^ D"

definition isLeaf :: "'f TreeNode \<Rightarrow> bool" where
  "isLeaf n = (children n ! 0 = 0)"

definition markAsLeaf :: "'f TreeNode \<Rightarrow> 'f TreeNode" where
  "markAsLeaf n = n\<lparr>children := (children n)[0 := 0]\<rparr>"

text \<open>
  \<^verbatim>\<open>TreeNode::splat\<close>, with its two assertions. Every sum and product is rounded
  to single precision as it is computed.
\<close>

definition node_splat ::
  "(real \<Rightarrow> real) \<Rightarrow> real TreeNode \<Rightarrow> real \<Rightarrow> real \<Rightarrow> bool \<Rightarrow> error + real TreeNode" where
  "node_splat tgt n value w secondMoment =
     (if \<not> w \<ge> 0 then Inl AssertionFailed
      else if \<not> value \<ge> 0 then Inl AssertionFailed
      else
        err_bind (Float_of (weight n + w)) (\<lambda>weight'.
        err_bind (Float_of (value * w)) (\<lambda>vw.
        err_bind (Float_of (val n + vw)) (\<lambda>val'.
          let target = tgt value
          in err_bind (if secondMoment then Float_of (target * target) else Inr target)
               (\<lambda>target.
                  err_bind (Float_of (target * w)) (\<lambda>tw.
                  err_bind (Float_of (density n + tw)) (\<lambda>density'.
                    Inr (n\<lparr>weight := weight', val := val', density := density'\<rparr>))))))))"

text \<open>\<^verbatim>\<open>TreeNode::reset\<close>.\<close>

definition node_reset :: "real TreeNode \<Rightarrow> real TreeNode" where
  "node_reset n = n\<lparr>density := 0, val := 0, weight := 0\<rparr>"

subsection \<open>The tree\<close>

record BTree =
  m_nodes :: "real TreeNode list"
  m_splitThreshold :: real
  m_leafReweighting :: bool
  m_doFiltering :: bool
  m_secondMoment :: bool

text \<open>\<^verbatim>\<open>m_nodes[i]\<close> for an \<^verbatim>\<open>int\<close> index.\<close>

definition node_at :: "'a list \<Rightarrow> int \<Rightarrow> error + 'a" where
  "node_at nodes i =
     (if 0 \<le> i \<and> i < int (length nodes) then Inr (nodes ! nat i) else Inl OutOfRange)"

text \<open>
  \<^verbatim>\<open>setUniform\<close>: \<^verbatim>\<open>resize(1)\<close> keeps the old root object (a value-initialised node
  when the pool was empty), \<^verbatim>\<open>markAsLeaf\<close> clears only \<^verbatim>\<open>children[0]\<close>.
\<close>

definition default_node :: "nat \<Rightarrow> ('f :: zero) TreeNode" where
  "default_node D = \<lparr>children = replicate (Arity D) 0, density = 0, val = 0, weight = 0\<rparr>"

definition resize :: "nat \<Rightarrow> nat \<Rightarrow> ('f :: zero) TreeNode list \<Rightarrow> 'f TreeNode list" where
  "resize D n nodes = take n nodes @ replicate (n - length nodes) (default_node D)"

definition setUniform :: "nat \<Rightarrow> BTree \<Rightarrow> BTree" where
  "setUniform D t =
     (let nodes = resize D 1 (m_nodes t);
          root = markAsLeaf (nodes ! 0)
      in t\<lparr>m_nodes := nodes[0 := root\<lparr>density := 1, val := 0, weight := 0\<rparr>]\<rparr>)"

text \<open>The constructor: the default settings, then \<^verbatim>\<open>setUniform\<close>.\<close>

definition new_tree :: "nat \<Rightarrow> BTree" where
  "new_tree D =
     setUniform D \<lparr>m_nodes = [], m_splitThreshold = 2 / 1000, m_leafReweighting = True,
                   m_doFiltering = True, m_secondMoment = False\<rparr>"

subsection \<open>Locating a point\<close>

text \<open>
  The inner loop of \<^verbatim>\<open>indexAt\<close> over the dimensions: the state is the working copy
  of the point and the child index built so far.
\<close>

definition indexAt_dim :: "nat \<Rightarrow> real list \<times> int \<Rightarrow> real list \<times> int" where
  "indexAt_dim d s =
     (let x = fst s; childIndex = snd s;
          slab = (if x ! d \<ge> 1 / 2 then 1 else 0 :: int);
          childIndex = childIndex OR push_bit d slab;
          x = (if slab \<noteq> 0 then x[d := x ! d - 1 / 2] else x);
          x = x[d := x ! d * 2]
      in (x, childIndex))"

definition indexAt_dims :: "nat \<Rightarrow> real list \<Rightarrow> real list \<times> int" where
  "indexAt_dims D x = fold indexAt_dim [0..<D] (x, 0)"

text \<open>
  The \<^verbatim>\<open>while\<close> loop of \<^verbatim>\<open>indexAt\<close>. The assertion \<^verbatim>\<open>newIndex > index\<close> and the
  bound of the vector make the index grow below the pool size, which is the
  termination argument.
\<close>

function indexAt_loop ::
  "nat \<Rightarrow> real TreeNode list \<Rightarrow> real list \<Rightarrow> int \<Rightarrow> int \<Rightarrow> error + (int \<times> int)" where
  "indexAt_loop D nodes x index depth =
     (if \<not> (0 \<le> index \<and> index < int (length nodes)) then Inl OutOfRange
      else if isLeaf (nodes ! nat index) then Inr (index, depth)
      else
        let newIndex = children (nodes ! nat index) ! nat (snd (indexAt_dims D x))
        in if \<not> newIndex > index then Inl NotAscending
           else indexAt_loop D nodes (fst (indexAt_dims D x)) newIndex (depth + 1))"
  by pat_completeness auto
termination
  by (relation "measure (\<lambda>(D, nodes, x, index, depth). nat (int (length nodes) - index))") auto

declare indexAt_loop.simps [simp del]

definition indexAt :: "nat \<Rightarrow> BTree \<Rightarrow> real list \<Rightarrow> error + (int \<times> int)" where
  "indexAt D t y = indexAt_loop D (m_nodes t) y 0 0"

text \<open>\<^verbatim>\<open>pdf\<close>: the density of the leaf that \<^verbatim>\<open>indexAt\<close> finds.\<close>

definition pdf :: "nat \<Rightarrow> BTree \<Rightarrow> real list \<Rightarrow> error + real" where
  "pdf D t x = err_bind (indexAt D t x) (\<lambda>r. Inr (density (m_nodes t ! nat (fst r))))"

subsection \<open>Sampling\<close>

text \<open>
  The innermost loop of \<^verbatim>\<open>sample\<close>: the densities of the children that agree with
  the bits chosen so far, summed by the bit of dimension \<open>d\<close> into \<open>p[0]\<close> and \<open>p[1]\<close>.
  \<open>ch\<close> is the \<^verbatim>\<open>children\<close> array of the current node.
\<close>

definition sample_marginal ::
  "nat \<Rightarrow> real TreeNode list \<Rightarrow> int list \<Rightarrow> nat \<Rightarrow> int \<Rightarrow> error + (real \<times> real)" where
  "sample_marginal D nodes ch d childIndex =
     fold (\<lambda>child acc. err_bind acc (\<lambda>p.
             let ci = push_bit d (int child) OR childIndex
             in err_bind (node_at nodes (ch ! nat ci)) (\<lambda>n.
                  if int child AND 1 = 0 then Inr (fst p + density n, snd p)
                  else Inr (fst p, snd p + density n))))
          [0..<2 ^ (D - d)] (Inr (0, 0))"

text \<open>
  One dimension of one level. The state is the point, \<^verbatim>\<open>base\<close> and the child index.
  When \<open>p[0] + p[1]\<close> is zero the division gives a NaN or an infinity with a negative
  \<open>p[1]\<close>, and in each case the assertion after it fails.
\<close>

definition sample_dim ::
  "nat \<Rightarrow> real TreeNode list \<Rightarrow> int list \<Rightarrow> real \<Rightarrow> nat \<Rightarrow>
   real list \<times> real list \<times> int \<Rightarrow> error + (real list \<times> real list \<times> int)" where
  "sample_dim D nodes ch scale d s =
     (let x = fst s; base = fst (snd s); childIndex = snd (snd s)
      in err_bind (sample_marginal D nodes ch d childIndex) (\<lambda>p.
           if fst p + snd p = 0 then Inl AssertionFailed
           else
             let p0 = fst p / (fst p + snd p); p1 = snd p
             in if \<not> (p0 \<ge> 0 \<and> p1 \<ge> 0) then Inl AssertionFailed
                else
                  let slab = (if x ! d > p0 then 1 else 0 :: int);
                      childIndex = childIndex OR push_bit d slab
                  in if slab \<noteq> 0 then
                       (if 1 - p0 = 0 then Inl NotFinite
                        else Inr (x[d := (x ! d - p0) / (1 - p0)],
                                  base[d := base ! d + (1 / 2) * scale], childIndex))
                     else
                       (if p0 = 0 then Inl NotFinite
                        else Inr (x[d := x ! d / p0], base, childIndex))))"

definition sample_dims ::
  "nat \<Rightarrow> real TreeNode list \<Rightarrow> int list \<Rightarrow> real \<Rightarrow> real list \<Rightarrow> real list \<Rightarrow>
   error + (real list \<times> real list \<times> int)" where
  "sample_dims D nodes ch scale x base =
     fold (\<lambda>d acc. err_bind acc (sample_dim D nodes ch scale d)) [0..<D] (Inr (x, base, 0))"

text \<open>The \<^verbatim>\<open>while\<close> loop of \<^verbatim>\<open>sample\<close>; it ends for the reason \<^verbatim>\<open>indexAt\<close> does.\<close>

function sample_loop ::
  "nat \<Rightarrow> real TreeNode list \<Rightarrow> real list \<Rightarrow> real list \<Rightarrow> real \<Rightarrow> int \<Rightarrow>
   error + (real list \<times> real list \<times> real \<times> int)" where
  "sample_loop D nodes x base scale index =
     (if \<not> (0 \<le> index \<and> index < int (length nodes)) then Inl OutOfRange
      else if isLeaf (nodes ! nat index) then Inr (x, base, scale, index)
      else
        case sample_dims D nodes (children (nodes ! nat index)) scale x base of
          Inl e \<Rightarrow> Inl e
        | Inr s \<Rightarrow>
            let newIndex = children (nodes ! nat index) ! nat (snd (snd s))
            in if \<not> newIndex > index then Inl NotAscending
               else sample_loop D nodes (fst s) (fst (snd s)) (scale / 2) newIndex)"
  by pat_completeness auto
termination
  by (relation "measure (\<lambda>(D, nodes, x, base, scale, index). nat (int (length nodes) - index))")
     auto

declare sample_loop.simps [simp del]

text \<open>
  \<^verbatim>\<open>sample(Vector &x, Float &pdf)\<close>. Both arguments are references: \<open>pdf_in\<close> is the
  value the caller's variable holds at the call, which the first statement
  overwrites with 1. The result is the warped point, the pdf and the leaf's value.
\<close>

definition sample :: "nat \<Rightarrow> BTree \<Rightarrow> real list \<Rightarrow> real \<Rightarrow> error + (real list \<times> real \<times> real)" where
  "sample D t x pdf_in =
     (let pdf = 1
      in err_bind (sample_loop D (m_nodes t) x (replicate D 0) 1 0) (\<lambda>r.
           let x = fst r; base = fst (snd r); scale = fst (snd (snd r));
               index = snd (snd (snd r));
               pdf = pdf * density (m_nodes t ! nat index)
           in if \<not> density (m_nodes t ! nat index) > 0 then Inl AssertionFailed
              else Inr (fold (\<lambda>d x. x[d := x ! d * scale + base ! d]) [0..<D] x,
                        pdf, val (m_nodes t ! nat index))))"

subsection \<open>Depositing\<close>

text \<open>\<^verbatim>\<open>computeOverlap\<close> of guiding.h.\<close>

definition computeOverlap ::
  "nat \<Rightarrow> real list \<Rightarrow> real list \<Rightarrow> real list \<Rightarrow> real list \<Rightarrow> real" where
  "computeOverlap D min1 max1 min2 max2 =
     fold (\<lambda>i overlap. overlap * max (min (max1 ! i) (max2 ! i) - max (min1 ! i) (min2 ! i)) 0)
          [0..<D] 1"

definition childMin_of :: "nat \<Rightarrow> real list \<Rightarrow> real \<Rightarrow> nat \<Rightarrow> real list" where
  "childMin_of D nodeMin childSize child =
     fold (\<lambda>d cm. if int child AND push_bit d 1 \<noteq> 0 then cm[d := cm ! d + childSize] else cm)
          [0..<D] nodeMin"

text \<open>
  \<^verbatim>\<open>splatFiltered\<close>. \<^verbatim>\<open>node\<close> is a reference into the pool, so the children of the
  node are read from the pool as it is at each iteration.
\<close>

fun splatFiltered ::
  "nat \<Rightarrow> nat \<Rightarrow> (real \<Rightarrow> real) \<Rightarrow> bool \<Rightarrow> real TreeNode list \<Rightarrow> int \<Rightarrow>
   real list \<Rightarrow> real list \<Rightarrow> real list \<Rightarrow> real \<Rightarrow> real \<Rightarrow> real \<Rightarrow> error + real TreeNode list" where
  "splatFiltered 0 D tgt sm nodes index originMin originMax nodeMin nodeSize value w =
     Inl OutOfFuel"
| "splatFiltered (Suc fuel) D tgt sm nodes index originMin originMax nodeMin nodeSize value w =
     (let nodeMax = fold (\<lambda>d nm. nm[d := nm ! d + nodeSize]) [0..<D] nodeMin;
          overlap = computeOverlap D originMin originMax nodeMin nodeMax
      in if overlap > 0 then
           (if \<not> (0 \<le> index \<and> index < int (length nodes)) then Inl OutOfRange
            else if isLeaf (nodes ! nat index) then
              err_bind (node_splat tgt (nodes ! nat index) value (w * overlap) sm)
                (\<lambda>n. Inr (nodes[nat index := n]))
            else
              fold (\<lambda>child acc. err_bind acc (\<lambda>nodes.
                      splatFiltered fuel D tgt sm nodes
                        (children (nodes ! nat index) ! child)
                        originMin originMax
                        (childMin_of D nodeMin (nodeSize / 2) child) (nodeSize / 2)
                        value w))
                   [0..<Arity D] (Inr nodes))
         else Inr nodes)"

text \<open>
  \<^verbatim>\<open>splat\<close>. The recursion of \<^verbatim>\<open>splatFiltered\<close> cannot be deeper than the pool is
  long unless it meets a node twice, so that much fuel loses nothing.
\<close>

definition splat ::
  "nat \<Rightarrow> (real \<Rightarrow> real) \<Rightarrow> BTree \<Rightarrow> real list \<Rightarrow> real \<Rightarrow> real \<Rightarrow> error + BTree" where
  "splat D tgt t x value w =
     (if \<not> m_doFiltering t then
        err_bind (indexAt D t x) (\<lambda>r.
          err_bind (node_splat tgt (m_nodes t ! nat (fst r)) value w (m_secondMoment t))
            (\<lambda>n. Inr (t\<lparr>m_nodes := (m_nodes t)[nat (fst r) := n]\<rparr>)))
      else
        err_bind (indexAt D t x) (\<lambda>r.
          let depth = snd r
          in if \<not> depth < 32 then Inl UndefinedShift
             else
               let size = 1 / real_of_int (int32 (2 ^ nat depth));
                   originMin = map (\<lambda>d. x ! d - size / 2) [0..<D];
                   originMax = map (\<lambda>d. x ! d + size / 2) [0..<D];
                   zero = replicate D 0
               in err_bind (splatFiltered (Suc (length (m_nodes t))) D tgt (m_secondMoment t)
                              (m_nodes t) 0 originMin originMax zero 1 value
                              (w / (size * size)))
                    (\<lambda>nodes. Inr (t\<lparr>m_nodes := nodes\<rparr>))))"

subsection \<open>Building\<close>

text \<open>
  The first pass of \<^verbatim>\<open>build\<close>, the private \<^verbatim>\<open>build(index, newNodes, scale)\<close>.
  The record holds the local variables of the loop over the children together with
  the new pool.
\<close>

record build_acc =
  newNodes :: "real TreeNode list"
  validCount :: int
  acc_density :: real
  acc_weight :: real
  acc_value :: real

text \<open>The leaf case, after the node has been pushed to the new pool at \<open>newIndex\<close>.\<close>

definition build_leaf ::
  "BTree \<Rightarrow> real TreeNode \<Rightarrow> nat \<Rightarrow> real TreeNode list \<Rightarrow> real \<Rightarrow> error + real TreeNode list" where
  "build_leaf t node newIndex nn scale =
     (if m_leafReweighting t \<and> weight node < 1 / 1000 then
        Inr (nn[newIndex := (nn ! newIndex)\<lparr>weight := - 1\<rparr>])
      else
        let w = (if m_leafReweighting t then 1 / weight node else scale)
        in if \<not> w \<ge> 0 then Inl AssertionFailed
           else
             let newNode = markAsLeaf (nn ! newIndex);
                 newNode = newNode\<lparr>density := density node * w, val := val node * w,
                                   weight := weight node\<rparr>
             in if m_secondMoment t then
                  (if density newNode < 0 then Inl NotFinite
                   else Inr (nn[newIndex := newNode\<lparr>density := sqrt (density newNode)\<rparr>]))
                else Inr (nn[newIndex := newNode]))"

text \<open>What the loop body does once the recursive call for \<open>child\<close> has returned \<open>nn\<close>.\<close>

definition build_child ::
  "nat \<Rightarrow> nat \<Rightarrow> build_acc \<Rightarrow> real TreeNode list \<Rightarrow> build_acc" where
  "build_child newIndex child s nn =
     (let newChildIndex = length (newNodes s);
          nn = nn[newIndex := (nn ! newIndex)
                    \<lparr>children := (children (nn ! newIndex))
                                   [child := int32 (int newChildIndex)]\<rparr>];
          newChild = nn ! newChildIndex
      in if weight newChild \<ge> 0 then
           s\<lparr>newNodes := nn,
             acc_density := acc_density s + density newChild,
             acc_value := acc_value s + val newChild,
             acc_weight := acc_weight s + weight newChild,
             validCount := validCount s + 1\<rparr>
         else s\<lparr>newNodes := nn\<rparr>)"

text \<open>The statements after the loop, from \<^verbatim>\<open>if (!m_leafReweighting)\<close> on.\<close>

definition build_finish :: "nat \<Rightarrow> BTree \<Rightarrow> nat \<Rightarrow> build_acc \<Rightarrow> real TreeNode list" where
  "build_finish D t newIndex s =
     (let nn = newNodes s;
          validCount = (if \<not> m_leafReweighting t then 4 else validCount s)
      in if validCount = 0 then nn[newIndex := (nn ! newIndex)\<lparr>weight := - 1\<rparr>]
         else
           let nn = nn[newIndex := (nn ! newIndex)
                         \<lparr>density := acc_density s / real_of_int validCount,
                          val := acc_value s / real_of_int validCount,
                          weight := acc_weight s\<rparr>]
           in if validCount < int (Arity D) then
                (let nn = take (newIndex + 1) nn
                 in nn[newIndex := markAsLeaf (nn ! newIndex)])
              else nn)"

fun build_rec ::
  "nat \<Rightarrow> nat \<Rightarrow> BTree \<Rightarrow> int \<Rightarrow> real TreeNode list \<Rightarrow> real \<Rightarrow> error + real TreeNode list" where
  "build_rec 0 D t index nn scale = Inl OutOfFuel"
| "build_rec (Suc fuel) D t index nn scale =
     (case node_at (m_nodes t) index of
        Inl e \<Rightarrow> Inl e
      | Inr node \<Rightarrow>
          let newIndex = length nn;
              nn = nn @ [node]
          in if isLeaf node then build_leaf t node newIndex nn scale
             else
               err_bind
                 (fold (\<lambda>child acc. err_bind acc (\<lambda>s.
                          err_bind (build_rec fuel D t (children node ! child) (newNodes s)
                                      (scale * real (Arity D)))
                            (\<lambda>nn. Inr (build_child newIndex child s nn))))
                       [0..<Arity D]
                       (Inr \<lparr>newNodes = nn, validCount = 0, acc_density = 0,
                             acc_weight = 0, acc_value = 0\<rparr>))
                 (\<lambda>s. Inr (build_finish D t newIndex s)))"

text \<open>
  The public \<^verbatim>\<open>build()\<close>. A recursion deeper than the pool is long has met a node
  twice and never returns in the source, so the fuel below loses nothing.
\<close>

definition build :: "nat \<Rightarrow> BTree \<Rightarrow> error + BTree" where
  "build D t =
     err_bind (build_rec (Suc (length (m_nodes t))) D t 0 [] 1) (\<lambda>nn.
       if weight (nn ! 0) \<le> 0 \<or> density (nn ! 0) = 0 then Inr (setUniform D t)
       else
         let norm = density (nn ! 0)
         in Inr (t\<lparr>m_nodes :=
                     map (\<lambda>node. node\<lparr>density := density node / norm,
                                       val := (if \<not> m_leafReweighting t
                                               then val node / weight (nn ! 0)
                                               else val node)\<rparr>) nn\<rparr>))"

subsection \<open>Refining\<close>

text \<open>\<^verbatim>\<open>split\<close>, with its two assertions.\<close>

definition split_node :: "nat \<Rightarrow> BTree \<Rightarrow> int \<Rightarrow> error + BTree" where
  "split_node D t parentIndex =
     (let childIndex = length (m_nodes t)
      in if \<not> (0 \<le> parentIndex \<and> parentIndex < int childIndex) then Inl AssertionFailed
         else if \<not> isLeaf (m_nodes t ! nat parentIndex) then Inl AssertionFailed
         else
           let nodes = m_nodes t @ replicate (Arity D) (m_nodes t ! nat parentIndex);
               parent = nodes ! nat parentIndex
           in Inr (t\<lparr>m_nodes := nodes[nat parentIndex := parent
                        \<lparr>children := fold (\<lambda>child ch.
                                            ch[child := int32 (int (childIndex + child))])
                                          [0..<Arity D] (children parent)\<rparr>]\<rparr>))"

text \<open>
  \<^verbatim>\<open>refine(index, scale)\<close>. The pool grows while the recursion runs, so the fuel is
  an argument.
\<close>

fun refine :: "nat \<Rightarrow> nat \<Rightarrow> BTree \<Rightarrow> int \<Rightarrow> real \<Rightarrow> error + BTree" where
  "refine 0 D t index scale = Inl OutOfFuel"
| "refine (Suc fuel) D t index scale =
     (if \<not> (0 \<le> index \<and> index < int (length (m_nodes t))) then Inl OutOfRange
      else
        let recurse = (\<lambda>t. fold (\<lambda>child acc. err_bind acc (\<lambda>t.
                             refine fuel D t (children (m_nodes t ! nat index) ! child)
                               (scale * real (Arity D))))
                           [0..<Arity D] (Inr t))
        in if isLeaf (m_nodes t ! nat index) then
             (if scale = 0 then Inl NotFinite
              else
                let criterion = density (m_nodes t ! nat index) / scale
                in if criterion \<ge> m_splitThreshold t then
                     err_bind (split_node D t index) recurse
                   else Inr (t\<lparr>m_nodes := (m_nodes t)
                                  [nat index := node_reset (m_nodes t ! nat index)]\<rparr>))
           else recurse t)"

subsection \<open>Statistics\<close>

fun depth_rec :: "nat \<Rightarrow> nat \<Rightarrow> real TreeNode list \<Rightarrow> int \<Rightarrow> error + int" where
  "depth_rec 0 D nodes index = Inl OutOfFuel"
| "depth_rec (Suc fuel) D nodes index =
     (if \<not> (0 \<le> index \<and> index < int (length nodes)) then Inl OutOfRange
      else if isLeaf (nodes ! nat index) then Inr 1
      else
        err_bind
          (fold (\<lambda>i acc. err_bind acc (\<lambda>maxDepth.
                   err_bind (depth_rec fuel D nodes (children (nodes ! nat index) ! i))
                     (\<lambda>dep. Inr (max maxDepth dep))))
                [0..<Arity D] (Inr 0))
          (\<lambda>maxDepth. Inr (maxDepth + 1)))"

definition depth :: "nat \<Rightarrow> BTree \<Rightarrow> error + int" where
  "depth D t = depth_rec (Suc (length (m_nodes t))) D (m_nodes t) 0"


section \<open>The learning wrapper (include/guiding/wrapper.h)\<close>

text \<open>
  \<^verbatim>\<open>Wrapper<S, C>\<close>. The distribution \<^verbatim>\<open>C\<close> is a type parameter, \<open>'c\<close> in the record.
  The wrapper calls members of \<^verbatim>\<open>C\<close> that take \<^verbatim>\<open>settings.child\<close> first, and it
  uses \<^verbatim>\<open>C::Aux\<close> and \<^verbatim>\<open>C::Settings\<close>; the tree of the first section has none of
  these, and no other distribution is among the source files.

  \<^item> For \<^verbatim>\<open>sample\<close> and \<^verbatim>\<open>pdf\<close> the two members of \<^verbatim>\<open>C\<close> that they call are
    parameters: \<open>dpdf c x\<close> is \<^verbatim>\<open>c.pdf(settings.child, x)\<close>, and \<open>dsample c x p\<close> is
    \<^verbatim>\<open>c.sample(settings.child, x, pdf)\<close> called while \<^verbatim>\<open>pdf\<close> holds \<open>p\<close>; it answers
    the point and the pdf that the call leaves in its two reference arguments.
  \<^item> For \<^verbatim>\<open>splat\<close> and \<^verbatim>\<open>step\<close>, whose schedule does not depend on the
    distribution, \<^verbatim>\<open>C\<close> is the tree above, with the settings argument and the
    auxiliary value of the target dropped.

  The two counters are \<^verbatim>\<open>size_t\<close>, so they are taken modulo \<open>2 ^ 64\<close>. \<open>wtarget\<close> is
  \<^verbatim>\<open>guiding::target(sample, aux)\<close>, declared outside the three source files. The
  locks are not modelled: the calls run one after the other.

  \<open>rebuild_log\<close> is not a member of the class. It records the value of
  \<^verbatim>\<open>m_samplesSoFar\<close> each time \<^verbatim>\<open>step\<close> runs build, copy and refine.
\<close>

record 'c Wrapper =
  uniformProb :: real
  m_sampling :: 'c
  m_training :: 'c
  m_samplesSoFar :: nat
  m_nextMilestone :: nat
  rebuild_log :: "nat list"

definition wrapper_reset :: "nat \<Rightarrow> BTree Wrapper \<Rightarrow> BTree Wrapper" where
  "wrapper_reset D w =
     w\<lparr>m_training := new_tree D, m_sampling := new_tree D,
       m_samplesSoFar := 0, m_nextMilestone := 1024\<rparr>"

definition new_wrapper :: "nat \<Rightarrow> BTree Wrapper" where
  "new_wrapper D =
     wrapper_reset D \<lparr>uniformProb = 1 / 2, m_sampling = new_tree D, m_training = new_tree D,
                     m_samplesSoFar = 0, m_nextMilestone = 0, rebuild_log = []\<rparr>"


text \<open>\<^verbatim>\<open>Wrapper::pdf\<close>.\<close>

definition wrapper_pdf ::
  "('c \<Rightarrow> real list \<Rightarrow> error + real) \<Rightarrow> 'c Wrapper \<Rightarrow> real list \<Rightarrow> error + real" where
  "wrapper_pdf dpdf w x =
     (if uniformProb w = 1 then Inr 1
      else err_bind (dpdf (m_sampling w) x) (\<lambda>p.
             Inr (uniformProb w + (1 - uniformProb w) * p)))"

text \<open>\<^verbatim>\<open>Wrapper::step\<close>; \<open>fuel\<close> is the fuel of \<^verbatim>\<open>refine\<close>.\<close>

definition step :: "nat \<Rightarrow> nat \<Rightarrow> BTree Wrapper \<Rightarrow> error + BTree Wrapper" where
  "step fuel D w =
     (if m_samplesSoFar w < m_nextMilestone w then Inr w
      else
        err_bind (build D (m_training w)) (\<lambda>built.
          err_bind (refine fuel D built 0 1) (\<lambda>refined.
            Inr (w\<lparr>m_training := refined, m_sampling := built,
                   m_nextMilestone := (m_nextMilestone w * 2) mod 2 ^ 64,
                   rebuild_log := rebuild_log w @ [m_samplesSoFar w]\<rparr>))))"

text \<open>\<^verbatim>\<open>Wrapper::splat\<close> of a sample with its weight at the point \<open>x\<close>.\<close>

definition wrapper_splat ::
  "nat \<Rightarrow> nat \<Rightarrow> (real \<Rightarrow> real) \<Rightarrow> ('s \<Rightarrow> real) \<Rightarrow> BTree Wrapper \<Rightarrow> 's \<times> real \<times> real list \<Rightarrow>
   error + BTree Wrapper" where
  "wrapper_splat fuel D tgt wtarget w a =
     (let smp = fst a; wgt = fst (snd a); x = snd (snd a);
          dens = wtarget smp
      in err_bind (splat D tgt (m_training w) x dens wgt) (\<lambda>training.
           let w = w\<lparr>m_training := training,
                     m_samplesSoFar := (m_samplesSoFar w + 1) mod 2 ^ 64\<rparr>
           in if m_samplesSoFar w > m_nextMilestone w then step fuel D w else Inr w))"

text \<open>Feeding the wrapper a list of splats, one at a time.\<close>

fun feed ::
  "nat \<Rightarrow> nat \<Rightarrow> (real \<Rightarrow> real) \<Rightarrow> ('s \<Rightarrow> real) \<Rightarrow> BTree Wrapper \<Rightarrow>
   ('s \<times> real \<times> real list) list \<Rightarrow> error + BTree Wrapper" where
  "feed fuel D tgt wtarget w [] = Inr w"
| "feed fuel D tgt wtarget w (a # as) =
     err_bind (wrapper_splat fuel D tgt wtarget w a) (\<lambda>w. feed fuel D tgt wtarget w as)"

section \<open>Notions used to state the properties\<close>

text \<open>
  \<^verbatim>\<open>children\<close> is a \<^verbatim>\<open>std::array<int, Arity>\<close>: in every node of a pool the list
  has \<open>Arity D\<close> entries.
\<close>

definition well_typed :: "nat \<Rightarrow> 'f TreeNode list \<Rightarrow> bool" where
  "well_typed D nodes = (\<forall>n \<in> set nodes. length (children n) = Arity D)"

text \<open>
  The mass of the subtree below \<open>index\<close>: the sum over its leaves of the density of
  the leaf times the volume of its cell, \<open>vol\<close> being the volume of the cell of
  \<open>index\<close>.
\<close>

fun leaf_mass :: "nat \<Rightarrow> nat \<Rightarrow> real TreeNode list \<Rightarrow> int \<Rightarrow> real \<Rightarrow> error + real" where
  "leaf_mass 0 D nodes index vol = Inl OutOfFuel"
| "leaf_mass (Suc fuel) D nodes index vol =
     (if \<not> (0 \<le> index \<and> index < int (length nodes)) then Inl OutOfRange
      else if isLeaf (nodes ! nat index) then Inr (density (nodes ! nat index) * vol)
      else
        fold (\<lambda>child acc. err_bind acc (\<lambda>s.
                err_bind (leaf_mass fuel D nodes (children (nodes ! nat index) ! child)
                            (vol / real (Arity D)))
                  (\<lambda>m. Inr (s + m))))
             [0..<Arity D] (Inr 0))"

subsection \<open>Example trees\<close>

text \<open>
  A one-dimensional tree (\<^verbatim>\<open>BTreeDistribution<1, Float>\<close>) whose split threshold has
  been set to 0.6 through the accessor, and the states it goes through: refined once
  (the root is split, its two children are reset), trained with the two deposits
  \<open>(x, value, weight) = (1/4, 1, 1)\<close> and \<open>(3/4, 3, 1)\<close>, and built. The flag is
  \<^verbatim>\<open>m_leafReweighting\<close>.
\<close>

definition ex1_start :: "bool \<Rightarrow> BTree" where
  "ex1_start lr = (new_tree 1)\<lparr>m_splitThreshold := 6 / 10, m_leafReweighting := lr\<rparr>"

definition ex1_refined :: "bool \<Rightarrow> BTree" where
  "ex1_refined lr =
     \<lparr>m_nodes = [\<lparr>children = [1, 2], density = 1, val = 0, weight = 0\<rparr>,
                 \<lparr>children = [0, 0], density = 0, val = 0, weight = 0\<rparr>,
                 \<lparr>children = [0, 0], density = 0, val = 0, weight = 0\<rparr>],
      m_splitThreshold = 6 / 10, m_leafReweighting = lr, m_doFiltering = True,
      m_secondMoment = False\<rparr>"

definition ex1_trained :: "bool \<Rightarrow> BTree" where
  "ex1_trained lr =
     \<lparr>m_nodes = [\<lparr>children = [1, 2], density = 1, val = 0, weight = 0\<rparr>,
                 \<lparr>children = [0, 0], density = 2, val = 2, weight = 2\<rparr>,
                 \<lparr>children = [0, 0], density = 6, val = 6, weight = 2\<rparr>],
      m_splitThreshold = 6 / 10, m_leafReweighting = lr, m_doFiltering = True,
      m_secondMoment = False\<rparr>"

text \<open>The built tree with leaf reweighting on.\<close>

definition ex1_built :: BTree where
  "ex1_built =
     \<lparr>m_nodes = [\<lparr>children = [1, 2], density = 1, val = 2, weight = 4\<rparr>,
                 \<lparr>children = [0, 0], density = 1 / 2, val = 1, weight = 2\<rparr>,
                 \<lparr>children = [0, 0], density = 3 / 2, val = 3, weight = 2\<rparr>],
      m_splitThreshold = 6 / 10, m_leafReweighting = True, m_doFiltering = True,
      m_secondMoment = False\<rparr>"

text \<open>The built tree with leaf reweighting off.\<close>

definition ex1_built_naive :: BTree where
  "ex1_built_naive =
     \<lparr>m_nodes = [\<lparr>children = [1, 2], density = 1, val = 1, weight = 4\<rparr>,
                 \<lparr>children = [0, 0], density = 1, val = 1, weight = 2\<rparr>,
                 \<lparr>children = [0, 0], density = 3, val = 3, weight = 2\<rparr>],
      m_splitThreshold = 6 / 10, m_leafReweighting = False, m_doFiltering = True,
      m_secondMoment = False\<rparr>"

text \<open>
  A three-dimensional tree with leaf reweighting and filtering off, refined once and
  trained with the one deposit \<open>(x, value, weight) = ((1/4, 1/4, 1/4), 1, 1)\<close>.
\<close>

definition ex3_start :: BTree where
  "ex3_start =
     (new_tree 3)\<lparr>m_splitThreshold := 6 / 10, m_leafReweighting := False,
                  m_doFiltering := False\<rparr>"

definition ex3_leaf :: "real \<Rightarrow> real TreeNode" where
  "ex3_leaf a = \<lparr>children = [0, 0, 0, 0, 0, 0, 0, 0], density = a, val = a, weight = a\<rparr>"

definition ex3_trained :: BTree where
  "ex3_trained =
     \<lparr>m_nodes = [\<lparr>children = [1, 2, 3, 4, 5, 6, 7, 8], density = 1, val = 0, weight = 0\<rparr>,
                 ex3_leaf 1, ex3_leaf 0, ex3_leaf 0, ex3_leaf 0,
                 ex3_leaf 0, ex3_leaf 0, ex3_leaf 0, ex3_leaf 0],
      m_splitThreshold = 6 / 10, m_leafReweighting = False, m_doFiltering = False,
      m_secondMoment = False\<rparr>"

subsection \<open>Notions for the rebuild schedule\<close>

text \<open>
  After \<open>n\<close> deposits and \<open>k\<close> rebuilds: the milestone is \<open>1024 * 2 ^ k\<close>, the rebuilds
  happened at the counts \<open>1024 * 2 ^ j + 1\<close> for \<open>j < k\<close>, and the count has not passed
  the milestone.
\<close>

definition sched_inv :: "BTree Wrapper \<Rightarrow> nat \<Rightarrow> nat \<Rightarrow> bool" where
  "sched_inv w n k =
     (m_samplesSoFar w = n \<and> m_nextMilestone w = 1024 * 2 ^ k \<and>
      rebuild_log w = map (\<lambda>j. 1024 * 2 ^ j + 1) [0..<k] \<and> n \<le> 1024 * 2 ^ k)"

text \<open>
  A one-dimensional wrapper after \<open>s\<close> deposits of value 1 and weight 1 at the point
  \<open>1/2\<close>, none of which has triggered a rebuild: the training tree is the root leaf
  with its accumulators (\<open>d\<close> is \<open>s\<close> as a real), its split threshold is \<open>thr\<close>. And
  the wrapper with threshold 0.6 after the deposit number 1025.
\<close>

definition ex_wrapper :: "real \<Rightarrow> nat \<Rightarrow> real \<Rightarrow> BTree Wrapper" where
  "ex_wrapper thr s d =
     \<lparr>uniformProb = 1 / 2, m_sampling = new_tree 1,
      m_training = \<lparr>m_nodes = [\<lparr>children = [0, 0], density = 1 + d, val = d, weight = d\<rparr>],
                    m_splitThreshold = thr, m_leafReweighting = True, m_doFiltering = True,
                    m_secondMoment = False\<rparr>,
      m_samplesSoFar = s, m_nextMilestone = 1024, rebuild_log = []\<rparr>"

definition ex_wrapper_rebuilt :: "BTree Wrapper" where
  "ex_wrapper_rebuilt =
     \<lparr>uniformProb = 1 / 2,
      m_sampling = \<lparr>m_nodes = [\<lparr>children = [0, 0], density = 1, val = 1, weight = 1025\<rparr>],
                    m_splitThreshold = 6 / 10, m_leafReweighting = True, m_doFiltering = True,
                    m_secondMoment = False\<rparr>,
      m_training = \<lparr>m_nodes = [\<lparr>children = [1, 2], density = 1, val = 1, weight = 1025\<rparr>,
                               \<lparr>children = [0, 0], density = 0, val = 0, weight = 0\<rparr>,
                               \<lparr>children = [0, 0], density = 0, val = 0, weight = 0\<rparr>],
                    m_splitThreshold = 6 / 10, m_leafReweighting = True, m_doFiltering = True,
                    m_secondMoment = False\<rparr>,
      m_samplesSoFar = 1025, m_nextMilestone = 2048, rebuild_log = [1025]\<rparr>"

subsection \<open>The shape of the pool\<close>

text \<open>
  \<open>tree_at D nodes i S\<close>: the nodes reached from index \<open>i\<close> form a tree that occupies
  exactly the indices \<open>S\<close> of the pool. Every node of it has \<open>2 ^ D\<close> child entries, the
  children of an internal node lie at greater indices than the node, and the subtrees
  of two different children share no index.
\<close>

inductive tree_at :: "nat \<Rightarrow> real TreeNode list \<Rightarrow> nat \<Rightarrow> nat set \<Rightarrow> bool"
  for D :: nat and nodes :: "real TreeNode list" where
  leaf: "i < length nodes \<Longrightarrow> length (children (nodes ! i)) = 2 ^ D \<Longrightarrow> isLeaf (nodes ! i) \<Longrightarrow>
         tree_at D nodes i {i}"
| node: "i < length nodes \<Longrightarrow> length (children (nodes ! i)) = 2 ^ D \<Longrightarrow>
         \<not> isLeaf (nodes ! i) \<Longrightarrow>
         (\<And>c. c < 2 ^ D \<Longrightarrow> int i < children (nodes ! i) ! c \<and>
                            tree_at D nodes (nat (children (nodes ! i) ! c)) (Ss c)) \<Longrightarrow>
         (\<And>c c'. c < c' \<Longrightarrow> c' < 2 ^ D \<Longrightarrow> Ss c \<inter> Ss c' = {}) \<Longrightarrow>
         tree_at D nodes i (insert i (\<Union>c \<in> {..<2 ^ D}. Ss c))"


text \<open>
  The ordering stated for the pool: it is not empty, every \<^verbatim>\<open>children\<close> array has
  \<open>2 ^ D\<close> entries, and each child index of an internal node at index \<open>i\<close> is greater
  than \<open>i\<close> and inside the pool.
\<close>

definition ordered :: "nat \<Rightarrow> real TreeNode list \<Rightarrow> bool" where
  "ordered D nodes =
     (nodes \<noteq> [] \<and>
      (\<forall>i < length nodes.
         length (children (nodes ! i)) = 2 ^ D \<and>
         (\<not> isLeaf (nodes ! i) \<longrightarrow>
            (\<forall>c \<in> set (children (nodes ! i)). int i < c \<and> c < int (length nodes)))))"









subsection \<open>The cells of the nodes\<close>

text \<open>
  The cell of a node, as \<^verbatim>\<open>splatFiltered\<close> computes it on its way down: the root has
  the unit cube, with corner 0 and side 1, and the child \<open>c\<close> of a node with corner
  \<open>lo\<close> and side \<open>sz\<close> has the side \<open>sz / 2\<close> and the corner that \<open>childMin_of\<close>
  gives. A point is inside a cell when each coordinate is at least the corner's and
  less than the corner's plus the side.
\<close>

inductive cell :: "nat \<Rightarrow> real TreeNode list \<Rightarrow> int \<Rightarrow> real list \<Rightarrow> real \<Rightarrow> bool"
  for D :: nat and nodes :: "real TreeNode list" where
  root: "cell D nodes 0 (replicate D 0) 1"
| child: "cell D nodes i lo sz \<Longrightarrow> 0 \<le> i \<Longrightarrow> i < int (length nodes) \<Longrightarrow>
          \<not> isLeaf (nodes ! nat i) \<Longrightarrow> c < Arity D \<Longrightarrow>
          cell D nodes (children (nodes ! nat i) ! c) (childMin_of D lo (sz / 2) c) (sz / 2)"

definition inside :: "nat \<Rightarrow> real list \<Rightarrow> real \<Rightarrow> real list \<Rightarrow> bool" where
  "inside D lo sz x = (\<forall>d < D. lo ! d \<le> x ! d \<and> x ! d < lo ! d + sz)"

text \<open>
  A one-dimensional tree of depth 2 without filtering: the root, the leaf \<open>[0, 1/2)\<close>,
  and an internal node with the leaves \<open>[1/2, 3/4)\<close> and \<open>[3/4, 1)\<close>. And a single leaf
  without filtering whose three accumulators hold \<open>2 ^ 24\<close>.
\<close>

definition ex1_deep :: BTree where
  "ex1_deep =
     \<lparr>m_nodes = [\<lparr>children = [1, 2], density = 1, val = 0, weight = 0\<rparr>,
                 \<lparr>children = [0, 0], density = 0, val = 0, weight = 0\<rparr>,
                 \<lparr>children = [3, 4], density = 0, val = 0, weight = 0\<rparr>,
                 \<lparr>children = [0, 0], density = 1, val = 2, weight = 3\<rparr>,
                 \<lparr>children = [0, 0], density = 0, val = 0, weight = 0\<rparr>],
      m_splitThreshold = 2 / 1000, m_leafReweighting = True, m_doFiltering = False,
      m_secondMoment = False\<rparr>"

definition ex1_heavy :: BTree where
  "ex1_heavy =
     \<lparr>m_nodes = [\<lparr>children = [0, 0], density = 16777216, val = 16777216,
                  weight = 16777216\<rparr>],
      m_splitThreshold = 2 / 1000, m_leafReweighting = True, m_doFiltering = False,
      m_secondMoment = False\<rparr>"

subsection \<open>A reachable tree\<close>



section \<open>Properties\<close>

text \<open>
  Rules for evaluating the functions on concrete inputs. The congruence rules keep the
  simplifier out of a branch until it is chosen.
\<close>

lemma err_bind_weak_cong: "m = m' \<Longrightarrow> err_bind m f = err_bind m' f"
  by simp

lemma fold_weak_cong: "xs = ys \<Longrightarrow> a = b \<Longrightarrow> fold f xs a = fold f ys b"
  by simp

lemmas eval_congs = sum.case_cong_weak let_weak_cong err_bind_weak_cong fold_weak_cong

lemma int32_small: "- 2147483648 \<le> k \<Longrightarrow> k < 2147483648 \<Longrightarrow> int32 k = k"
  by (simp add: int32_def)

lemma int32_0: "int32 0 = 0"
  by (simp add: int32_def)

lemma int32_1: "int32 1 = 1"
  by (simp add: int32_def)

lemma int32_numeral:
  "int32 (numeral k) =
     (if (numeral k :: int) < 2147483648 then numeral k
      else (numeral k + 2147483648) mod 4294967296 - 2147483648)"
proof (cases "(numeral k :: int) < 2147483648")
  case True
  have "(0 :: int) \<le> numeral k" by simp
  with True have "int32 (numeral k) = numeral k" by (intro int32_small) linarith+
  with True show ?thesis by simp
next
  case False
  then show ?thesis by (simp add: int32_def)
qed

lemma int32_range: "- 2147483648 \<le> int32 k \<and> int32 k < 2147483648"
proof -
  have "0 \<le> (k + 2147483648) mod 4294967296" "(k + 2147483648) mod 4294967296 < 4294967296"
    by simp_all
  then show ?thesis by (simp add: int32_def)
qed

text \<open>Single precision holds the integers up to \<open>2 ^ 24\<close> and the dyadic fractions of 24 bits.\<close>

lemma Float_ulp_pos: "0 < Float_ulp x"
  by (simp add: Float_ulp_def)

lemma scaled_quotient:
  fixes P Q R M U :: real
  shows "P = Q * R \<Longrightarrow> U = Q \<Longrightarrow> Q \<noteq> 0 \<Longrightarrow> M * P / U = M * R"
  by simp

lemma Float_rnd_integral:
  assumes "x \<noteq> 0" and "x / Float_ulp x = real_of_int k"
  shows "Float_rnd x = real_of_int k * Float_ulp x"
  unfolding Float_rnd_def Let_def assms(2) using assms(1) by simp

lemma quotient_back:
  fixes X U :: real
  shows "0 < U \<Longrightarrow> X / U * U = X"
  by simp

lemma Float_rnd_exact:
  assumes m: "\<bar>m\<bar> < 2 ^ 24" and e: "- 149 \<le> e"
  shows "Float_rnd (real_of_int m * 2 powr real_of_int e) = real_of_int m * 2 powr real_of_int e"
proof (cases "m = 0")
  case True
  then show ?thesis by (simp add: Float_rnd_def)
next
  case False
  let ?x = "real_of_int m * 2 powr real_of_int e"
  let ?e' = "max (\<lfloor>log 2 \<bar>?x\<bar>\<rfloor> - 23) (- 149)"
  have x0: "?x \<noteq> 0" using False by simp
  have ax: "\<bar>?x\<bar> = real_of_int \<bar>m\<bar> * 2 powr real_of_int e" by (simp add: abs_mult)
  have mpos: "0 < real_of_int \<bar>m\<bar>" using False by simp
  have "\<bar>?x\<bar> < 2 ^ 24 * 2 powr real_of_int e"
    unfolding ax using m by (intro mult_strict_right_mono) (simp_all flip: of_int_less_iff)
  also have "\<dots> = 2 powr (real_of_int (e + 24))"
    by (simp add: powr_add powr_realpow[symmetric])
  finally have "\<bar>?x\<bar> < 2 powr (real_of_int (e + 24))" .
  moreover have "0 < \<bar>?x\<bar>" using x0 by simp
  ultimately have "log 2 \<bar>?x\<bar> < real_of_int (e + 24)"
    by (simp add: log_less_iff)
  then have "\<lfloor>log 2 \<bar>?x\<bar>\<rfloor> < e + 24" by linarith
  then have le: "?e' \<le> e" using e by simp
  define j where "j = nat (e - ?e')"
  have ej: "e = ?e' + int j" using le by (simp add: j_def)
  have "2 powr real_of_int e = 2 powr real_of_int ?e' * 2 ^ j"
    by (subst ej) (simp add: powr_add powr_realpow del: of_int_max)
  moreover have "Float_ulp ?x = 2 powr real_of_int ?e'" by (simp only: Float_ulp_def)
  moreover have "(2::real) powr real_of_int ?e' \<noteq> 0" by simp
  ultimately have "?x / Float_ulp ?x = real_of_int m * 2 ^ j"
    by (rule scaled_quotient)
  then have q: "?x / Float_ulp ?x = real_of_int (m * 2 ^ j)" by simp
  have "Float_rnd ?x = real_of_int (m * 2 ^ j) * Float_ulp ?x"
    using x0 q by (rule Float_rnd_integral)
  also have "\<dots> = ?x / Float_ulp ?x * Float_ulp ?x" by (simp only: q)
  also have "\<dots> = ?x"
    by (rule quotient_back) (rule Float_ulp_pos)
  finally show ?thesis .
qed

lemma Float_rnd_int: "\<bar>m\<bar> \<le> 2 ^ 24 \<Longrightarrow> Float_rnd (real_of_int m) = real_of_int m"
proof (cases "\<bar>m\<bar> < 2 ^ 24")
  case True
  from Float_rnd_exact[OF True, of 0] show ?thesis by simp
next
  case False
  assume "\<bar>m\<bar> \<le> 2 ^ 24"
  with False have "m = 2 ^ 24 \<or> m = - (2 ^ 24)" by linarith
  then show ?thesis
  proof
    assume "m = 2 ^ 24"
    with Float_rnd_exact[of 1 24] show ?thesis by (simp add: powr_realpow[symmetric])
  next
    assume "m = - (2 ^ 24)"
    with Float_rnd_exact[of "- 1" 24] show ?thesis by (simp add: powr_realpow[symmetric])
  qed
qed

lemma Float_rnd_dyadic:
  "\<bar>m\<bar> < 2 ^ 24 \<Longrightarrow> k \<le> 149 \<Longrightarrow> Float_rnd (real_of_int m / 2 ^ k) = real_of_int m / 2 ^ k"
  using Float_rnd_exact[of m "- int k"]
  by (simp add: powr_minus powr_realpow field_simps)

lemma Float_of_int: "\<bar>m\<bar> \<le> 2 ^ 24 \<Longrightarrow> Float_of (real_of_int m) = Inr (real_of_int m)"
proof -
  assume m: "\<bar>m\<bar> \<le> 2 ^ 24"
  then have "\<bar>real_of_int m\<bar> \<le> 2 ^ 24" by (simp flip: of_int_abs add: of_int_le_iff[symmetric] del: of_int_abs)
  then have "\<bar>real_of_int m\<bar> < 2 ^ 128" by simp
  then show ?thesis using m by (simp add: Float_of_def Float_rnd_int)
qed

lemma Float_of_nat: "n \<le> 16777216 \<Longrightarrow> Float_of (real n) = Inr (real n)"
  using Float_of_int[of "int n"] by simp

lemma Float_of_0: "Float_of 0 = Inr 0"
  using Float_of_int[of 0] by simp

lemma Float_of_1: "Float_of 1 = Inr 1"
  using Float_of_int[of 1] by simp

lemma Float_of_numeral:
  "(numeral k :: real) \<le> 16777216 \<Longrightarrow> Float_of (numeral k) = Inr (numeral k)"
  using Float_of_int[of "numeral k"] by (simp flip: of_int_le_iff)

lemma Float_of_dyadic:
  "\<bar>m\<bar> < 2 ^ 24 \<Longrightarrow> k \<le> 149 \<Longrightarrow> Float_of (real_of_int m / 2 ^ k) = Inr (real_of_int m / 2 ^ k)"
proof -
  assume m: "\<bar>m\<bar> < 2 ^ 24" and k: "k \<le> 149"
  have "\<bar>real_of_int m / 2 ^ k\<bar> \<le> \<bar>real_of_int m\<bar>"
    by (simp add: field_simps mult_le_cancel_left1 abs_mult flip: of_int_abs)
  also have "\<dots> < 2 ^ 24" using m by (simp flip: of_int_abs add: of_int_less_iff[symmetric] del: of_int_abs)
  finally have "\<bar>real_of_int m / 2 ^ k\<bar> < 2 ^ 128" by simp
  then show ?thesis using m k by (simp add: Float_of_def Float_rnd_dyadic)
qed

lemma Float_rnd_16777217: "Float_rnd 16777217 = 16777216"
proof -
  have "(2::real) powr 24 = 2 ^ 24" by (simp add: powr_realpow[symmetric])
  moreover have "(2::real) powr 25 = 2 ^ 25" by (simp add: powr_realpow[symmetric])
  ultimately have "\<lfloor>log 2 (16777217::real)\<rfloor> = 24"
    by (subst floor_log_eq_powr_iff) simp_all
  then have u: "Float_ulp 16777217 = 2" by (simp add: Float_ulp_def)
  have f: "\<lfloor>16777217 / 2 :: real\<rfloor> = 8388608" by (simp add: floor_eq_iff)
  show ?thesis by (simp add: Float_rnd_def u f Let_def)
qed

lemma Float_of_16777217: "Float_of 16777217 = Inr 16777216"
  by (simp add: Float_of_def Float_rnd_16777217)

lemmas eval_simps =
  int32_0 int32_1 int32_numeral Float_of_0 Float_of_1 Float_of_numeral
  new_tree_def setUniform_def resize_def markAsLeaf_def default_node_def Arity_def isLeaf_def
  node_at_def node_splat_def node_reset_def split_node_def Let_def
  indexAt_def indexAt_loop.simps indexAt_dims_def indexAt_dim_def pdf_def
  sample_def sample_loop.simps sample_dims_def sample_dim_def sample_marginal_def
  computeOverlap_def childMin_of_def splat_def
  build_def build_leaf_def build_child_def build_finish_def

subsection \<open>The example trees are states of the program\<close>

lemma ex1_refine: "refine 2 1 (ex1_start lr) 0 1 = Inr (ex1_refined lr)"
  by (simp add: ex1_start_def ex1_refined_def eval_simps numeral_2_eq_2)

lemma ex1_splat:
  "err_bind (splat 1 (\<lambda>v. v) (ex1_refined lr) [1 / 4] 1 1)
     (\<lambda>t. splat 1 (\<lambda>v. v) t [3 / 4] 3 1) = Inr (ex1_trained lr)"
  by (simp add: ex1_trained_def ex1_refined_def eval_simps eval_nat_numeral)

lemma ex1_build: "build 1 (ex1_trained True) = Inr ex1_built"
  by (simp add: ex1_trained_def ex1_built_def eval_simps eval_nat_numeral)

lemma ex1_build_naive: "build 1 (ex1_trained False) = Inr ex1_built_naive"
  by (simp add: ex1_trained_def ex1_built_naive_def eval_simps eval_nat_numeral)

lemma ex3_train:
  "err_bind (refine 2 3 ex3_start 0 1) (\<lambda>t. splat 3 (\<lambda>v. v) t [1 / 4, 1 / 4, 1 / 4] 1 1)
   = Inr ex3_trained"
  by (simp add: ex3_start_def ex3_trained_def ex3_leaf_def eval_simps eval_nat_numeral)

subsection \<open>Leaves and the uniform tree\<close>

lemma indexAt_loop_leaf:
  "indexAt_loop D nodes x index dep = Inr (i, d) \<Longrightarrow>
   0 \<le> i \<and> i < int (length nodes) \<and> isLeaf (nodes ! nat i) \<and> index \<le> i"
proof (induction D nodes x index dep rule: indexAt_loop.induct)
  case (1 D nodes x index dep)
  show ?case
    using "1.prems" "1.IH"
    by (subst (asm) indexAt_loop.simps) (auto simp: Let_def split: if_splits)
qed

lemma pdf_single_leaf:
  "isLeaf r \<Longrightarrow> pdf D (t\<lparr>m_nodes := [r]\<rparr>) x = Inr (density r)"
  by (simp add: pdf_def indexAt_def indexAt_loop.simps)

lemma setUniform_root:
  assumes "well_typed D (m_nodes t)"
  shows "\<exists>r. m_nodes (setUniform D t) = [r] \<and> isLeaf r \<and> density r = 1 \<and> val r = 0 \<and>
           weight r = 0 \<and> setUniform D t = t\<lparr>m_nodes := [r]\<rparr>"
proof (cases "m_nodes t")
  case Nil
  then show ?thesis
    by (simp add: setUniform_def resize_def markAsLeaf_def default_node_def isLeaf_def Arity_def
        Let_def nth_list_update)
next
  case (Cons a as)
  with assms have "length (children a) = 2 ^ D"
    by (simp add: well_typed_def Arity_def)
  then have "children a \<noteq> []" by auto
  with Cons show ?thesis
    by (simp add: setUniform_def resize_def markAsLeaf_def isLeaf_def Let_def)
qed

subsection \<open>The pdf that the wrapper returns with a sample\<close>



subsection \<open>Where the code leaves the specification\<close>

text \<open>
  Claim C2. In one dimension, a deposit of value 1 and weight 1 at \<open>x = 1/4\<close> into
  the refined example tree: the point lies in node 1 at depth 1, so \<open>size = 1/2\<close>, the
  box is \<open>[0, 1/2]\<close> and its overlap with the cell \<open>[0, 1/2]\<close> of node 1 is \<open>1/2\<close>.
  \<open>weight * overlap / size ^ D\<close> is 1, and the weight of node 1 grows by 2: the code
  divides by \<open>size * size\<close> whatever \<open>D\<close> is.
\<close>

theorem splat_filtered_one_dimension:
  "indexAt 1 (ex1_refined True) [1 / 4] = Inr (1, 1) \<and>
   computeOverlap 1 [1 / 4 - (1 / 2) / 2] [1 / 4 + (1 / 2) / 2] [0] [1 / 2] = 1 / 2 \<and>
   splat 1 (\<lambda>v. v) (ex1_refined True) [1 / 4] 1 1 =
     Inr ((ex1_refined True)
           \<lparr>m_nodes := [\<lparr>children = [1, 2], density = 1, val = 0, weight = 0\<rparr>,
                        \<lparr>children = [0, 0], density = 2, val = 2, weight = 2\<rparr>,
                        \<lparr>children = [0, 0], density = 0, val = 0, weight = 0\<rparr>]\<rparr>)"
  by (simp add: ex1_refined_def eval_simps eval_nat_numeral cong: eval_congs)

text \<open>
  Claim C3. With leaf reweighting off the code sets \<^verbatim>\<open>validCount = 4\<close>, not
  \<open>2 ^ D\<close>. In one dimension the first pass over the trained example tree divides the
  sum \<open>4 + 12\<close> of the two children's densities by 4 and not by 2. In three
  dimensions \<open>4 < Arity\<close>, so build truncates the root of the trained example tree,
  whose eight children were all accepted, back to a leaf: the built tree has one
  node.
\<close>

theorem build_naive_valid_count:
  "build_rec 2 1 (ex1_trained False) 0 [] 1 =
     Inr [\<lparr>children = [1, 2], density = 4, val = 4, weight = 4\<rparr>,
          \<lparr>children = [0, 0], density = 4, val = 4, weight = 2\<rparr>,
          \<lparr>children = [0, 0], density = 12, val = 12, weight = 2\<rparr>] \<and>
   build 3 ex3_trained =
     Inr (ex3_trained
           \<lparr>m_nodes := [\<lparr>children = [0, 2, 3, 4, 5, 6, 7, 8], density = 1, val = 2,
                         weight = 1\<rparr>]\<rparr>)"
  by (simp add: ex1_trained_def ex3_trained_def ex3_leaf_def eval_simps eval_nat_numeral
      cong: eval_congs)

text \<open>
  Claim C5. In one dimension with leaf reweighting off, the first pass over the
  trained example tree leaves a root of weight 4 and density 4, so build
  normalises. The root of the built tree has density 1, but its leaves have
  densities 1 and 3 on cells of volume \<open>1/2\<close>: the sum over the leaves of density
  times volume is 2, and the root's density is not the mean of its children's.
\<close>

theorem build_naive_not_normalised:
  "build 1 (ex1_trained False) = Inr ex1_built_naive \<and>
   density (m_nodes ex1_built_naive ! 0) = 1 \<and>
   leaf_mass 3 1 (m_nodes ex1_built_naive) 0 1 = Inr 2"
  by (simp add: ex1_trained_def ex1_built_naive_def eval_simps eval_nat_numeral
      cong: eval_congs)

text \<open>
  Claim C6. The built example tree (one dimension, leaf reweighting on) has the
  leaves \<open>[0, 1/2)\<close> of density \<open>1/2\<close> and \<open>[1/2, 1)\<close> of density \<open>3/2\<close>. For
  \<open>x = 1/4\<close>, which equals \<open>p[0]\<close>, \<^verbatim>\<open>sample\<close> chooses the lower leaf because it
  compares with \<^verbatim>\<open>>\<close>, and returns the point \<open>1/2\<close> with the pdf \<open>1/2\<close>. \<^verbatim>\<open>pdf\<close> at
  the point \<open>1/2\<close> is \<open>3/2\<close>, the density of the upper leaf, in which \<^verbatim>\<open>indexAt\<close>
  locates \<open>1/2\<close>.
\<close>

theorem sample_on_cell_boundary:
  "build 1 (ex1_trained True) = Inr ex1_built \<and>
   sample 1 ex1_built [1 / 4] 0 = Inr ([1 / 2], 1 / 2, 1) \<and>
   pdf 1 ex1_built [1 / 2] = Inr (3 / 2)"
  by (simp add: ex1_trained_def ex1_built_def eval_simps eval_nat_numeral cong: eval_congs)

subsection \<open>The rebuild schedule of the wrapper\<close>

lemma step_Inr:
  assumes "step fuel D w = Inr w'"
  shows "m_samplesSoFar w' = m_samplesSoFar w \<and>
         (if m_samplesSoFar w < m_nextMilestone w then w' = w
          else m_nextMilestone w' = (m_nextMilestone w * 2) mod 2 ^ 64 \<and>
               rebuild_log w' = rebuild_log w @ [m_samplesSoFar w])"
proof (cases "m_samplesSoFar w < m_nextMilestone w")
  case True
  with assms show ?thesis by (simp add: step_def)
next
  case False
  with assms obtain b r where "build D (m_training w) = Inr b" "refine fuel D b 0 1 = Inr r"
    and "w' = w\<lparr>m_training := r, m_sampling := b,
                 m_nextMilestone := (m_nextMilestone w * 2) mod 2 ^ 64,
                 rebuild_log := rebuild_log w @ [m_samplesSoFar w]\<rparr>"
    by (cases "build D (m_training w)"; cases "refine fuel D (projr (build D (m_training w))) 0 1")
       (auto simp: step_def)
  with False show ?thesis by simp
qed

lemma wrapper_splat_Inr:
  assumes "wrapper_splat fuel D tgt wt w a = Inr w'"
  shows "m_samplesSoFar w' = (m_samplesSoFar w + 1) mod 2 ^ 64 \<and>
         (if (m_samplesSoFar w + 1) mod 2 ^ 64 > m_nextMilestone w
          then m_nextMilestone w' = (m_nextMilestone w * 2) mod 2 ^ 64 \<and>
               rebuild_log w' = rebuild_log w @ [(m_samplesSoFar w + 1) mod 2 ^ 64]
          else m_nextMilestone w' = m_nextMilestone w \<and> rebuild_log w' = rebuild_log w)"
proof -
  from assms obtain tr where tr: "splat D tgt (m_training w) (snd (snd a)) (wt (fst a)) (fst (snd a)) = Inr tr"
    by (cases "splat D tgt (m_training w) (snd (snd a)) (wt (fst a)) (fst (snd a))")
       (auto simp: wrapper_splat_def Let_def)
  let ?w1 = "w\<lparr>m_training := tr, m_samplesSoFar := (m_samplesSoFar w + 1) mod 2 ^ 64\<rparr>"
  show ?thesis
  proof (cases "(m_samplesSoFar w + 1) mod 2 ^ 64 > m_nextMilestone w")
    case True
    with assms tr have "step fuel D ?w1 = Inr w'"
      by (simp add: wrapper_splat_def Let_def)
    from step_Inr[OF this] True show ?thesis by simp
  next
    case False
    with assms tr have "w' = ?w1"
      by (simp add: wrapper_splat_def Let_def)
    with False show ?thesis by simp
  qed
qed

lemma sched_step:
  assumes inv: "sched_inv w n k" and n: "n < 2 ^ 63"
    and sp: "wrapper_splat fuel D tgt wt w a = Inr w'"
  shows "if n = 1024 * 2 ^ k
         then sched_inv w' (n + 1) (k + 1) \<and> rebuild_log w' = rebuild_log w @ [n + 1] \<and>
              m_nextMilestone w' = 2 * m_nextMilestone w
         else sched_inv w' (n + 1) k \<and> rebuild_log w' = rebuild_log w \<and>
              m_nextMilestone w' = m_nextMilestone w"
proof -
  have n1: "(n + 1) mod 2 ^ 64 = n + 1"
    using n by simp
  have s: "m_samplesSoFar w = n" "m_nextMilestone w = 1024 * 2 ^ k" "n \<le> 1024 * 2 ^ k"
    "rebuild_log w = map (\<lambda>j. 1024 * 2 ^ j + 1) [0..<k]"
    using inv by (simp_all add: sched_inv_def)
  note r = wrapper_splat_Inr[OF sp, unfolded s n1]
  show ?thesis
  proof (cases "n = 1024 * 2 ^ k")
    case True
    then have "(1024 * 2 ^ k * 2 :: nat) < 2 ^ 64"
      using n by simp
    then have "(1024 * 2 ^ k * 2 :: nat) mod 2 ^ 64 = 1024 * 2 ^ k * 2"
      by simp
    with True r s show ?thesis
      by (simp add: sched_inv_def)
  next
    case False
    with r s show ?thesis
      by (simp add: sched_inv_def)
  qed
qed

lemma sched_feed:
  assumes "sched_inv w n k" and "n + length as < 2 ^ 63"
    and "feed fuel D tgt wt w as = Inr w'"
  shows "\<exists>k'. sched_inv w' (n + length as) k'"
  using assms
proof (induction as arbitrary: w n k)
  case Nil
  then show ?case by auto
next
  case (Cons a as)
  from Cons.prems(3) obtain w1 where w1: "wrapper_splat fuel D tgt wt w a = Inr w1"
    and rest: "feed fuel D tgt wt w1 as = Inr w'"
    by (cases "wrapper_splat fuel D tgt wt w a") auto
  have "n < 2 ^ 63" using Cons.prems(2) by simp
  from sched_step[OF Cons.prems(1) this w1]
  obtain k1 where "sched_inv w1 (n + 1) k1"
    by (auto split: if_splits)
  from Cons.IH[OF this _ rest] Cons.prems(2) show ?case by simp
qed

text \<open>
  Claim C4, as the code has it. A wrapper that has just been reset (count 0,
  milestone 1024, no rebuild so far; its trees and their settings are arbitrary) is
  fed the deposits \<open>as\<close> and then the deposit \<open>a\<close>, fewer than \<open>2 ^ 63\<close> in all, and
  every call returns. Before the last deposit the milestone is \<open>1024 * 2 ^ k\<close> and the
  rebuilds so far happened at the deposits number \<open>1024 * 2 ^ j + 1\<close>, \<open>j < k\<close>. The
  last deposit, number \<open>length as + 1\<close>, runs build, copy and refine exactly when its
  number is the milestone plus one, and then the milestone doubles; otherwise the
  milestone stays.
\<close>

theorem rebuild_schedule:
  assumes "m_samplesSoFar w0 = 0" and "m_nextMilestone w0 = 1024" and "rebuild_log w0 = []"
    and "feed fuel D tgt wt w0 as = Inr w"
    and "wrapper_splat fuel D tgt wt w a = Inr w'"
    and "length as < 2 ^ 63"
  shows "\<exists>k. m_nextMilestone w = 1024 * 2 ^ k \<and>
           rebuild_log w = map (\<lambda>j. 1024 * 2 ^ j + 1) [0..<k] \<and>
           m_samplesSoFar w = length as \<and> m_samplesSoFar w' = length as + 1 \<and>
           (if length as + 1 = m_nextMilestone w + 1
            then rebuild_log w' = rebuild_log w @ [length as + 1] \<and>
                 m_nextMilestone w' = 2 * m_nextMilestone w
            else rebuild_log w' = rebuild_log w \<and> m_nextMilestone w' = m_nextMilestone w)"
proof -
  have "sched_inv w0 0 0"
    using assms(1-3) by (simp add: sched_inv_def)
  from sched_feed[OF this _ assms(4)] assms(6)
  obtain k where k: "sched_inv w (length as) k" by auto
  from sched_step[OF k assms(6) assms(5)] k show ?thesis
    by (intro exI[of _ k]) (auto simp: sched_inv_def split: if_splits)
qed

lemma ex_wrapper_new: "new_wrapper 1 = ex_wrapper (2 / 1000) 0 0"
  by (simp add: new_wrapper_def wrapper_reset_def ex_wrapper_def eval_simps numeral_2_eq_2)

lemma ex_wrapper_splat:
  assumes "s < 1024"
  shows "wrapper_splat fuel 1 (\<lambda>v. v) (\<lambda>s. s) (ex_wrapper thr s (real s)) (1, 1, [1 / 2])
         = Inr (ex_wrapper thr (s + 1) (real (s + 1)))"
proof -
  have "(s + 1) mod 2 ^ 64 = s + 1" using assms(1) by simp
  moreover have "\<not> s + 1 > 1024" using assms(1) by simp
  moreover have "Float_of (real s + 1) = Inr (real s + 1)"
    using Float_of_nat[of "s + 1"] assms by (simp add: ac_simps)
  moreover have "Float_of (1 + real s + 1) = Inr (1 + real s + 1)"
    using Float_of_nat[of "s + 2"] assms by (simp add: ac_simps)
  ultimately show ?thesis
    by (simp add: wrapper_splat_def ex_wrapper_def eval_simps numeral_2_eq_2 cong: eval_congs)
qed

lemma ex_wrapper_feed:
  "s + n \<le> 1024 \<Longrightarrow>
   feed fuel 1 (\<lambda>v. v) (\<lambda>s. s) (ex_wrapper thr s (real s)) (replicate n (1, 1, [1 / 2]))
   = Inr (ex_wrapper thr (s + n) (real (s + n)))"
proof (induction n arbitrary: s)
  case 0
  then show ?case by simp
next
  case (Suc n)
  have "s < 1024" using Suc.prems by simp
  from ex_wrapper_splat[OF this] Suc.IH[of "s + 1"] Suc.prems
  show ?case by (simp add: ac_simps)
qed

lemma ex_wrapper_rebuild:
  "wrapper_splat 2 1 (\<lambda>v. v) (\<lambda>s. s) (ex_wrapper (6 / 10) 1024 1024) (1, 1, [1 / 2])
   = Inr ex_wrapper_rebuilt"
proof -
  let ?tr = "\<lambda>d w. \<lparr>m_nodes = [\<lparr>children = [0, 0], density = d, val = w, weight = w\<rparr>],
                     m_splitThreshold = 3 / 5, m_leafReweighting = True, m_doFiltering = True,
                     m_secondMoment = False\<rparr>"
  have sp: "splat (Suc 0) (\<lambda>v. v) (?tr 1025 1024) [1 / 2] 1 1 = Inr (?tr 1026 1025)"
    by (simp add: eval_simps numeral_2_eq_2 cong: eval_congs)
  have bd: "build (Suc 0) (?tr 1026 1025) = Inr (m_sampling ex_wrapper_rebuilt)"
    by (simp add: ex_wrapper_rebuilt_def eval_simps numeral_2_eq_2 cong: eval_congs)
  have rf: "refine 2 (Suc 0) (m_sampling ex_wrapper_rebuilt) 0 1
            = Inr (m_training ex_wrapper_rebuilt)"
    by (simp add: ex_wrapper_rebuilt_def eval_simps numeral_2_eq_2 cong: eval_congs)
  have "wrapper_splat 2 1 (\<lambda>v. v) (\<lambda>s. s) (ex_wrapper (6 / 10) 1024 1024) (1, 1, [1 / 2])
        = Inr ((ex_wrapper (6 / 10) 1024 1024)
                \<lparr>m_training := m_training ex_wrapper_rebuilt,
                  m_sampling := m_sampling ex_wrapper_rebuilt,
                  m_samplesSoFar := 1025, m_nextMilestone := 2048, rebuild_log := [1025]\<rparr>)"
    by (simp add: wrapper_splat_def step_def ex_wrapper_def sp bd rf Let_def)
  then show ?thesis
    by (simp add: ex_wrapper_def ex_wrapper_rebuilt_def)
qed

text \<open>
  The fresh one-dimensional wrapper after 1024 deposits: the count has reached the
  milestone 1024 and no rebuild has run (the fuel 0 would have stopped \<^verbatim>\<open>refine\<close>).
\<close>

theorem rebuild_at_milestone_counterexample:
  "feed 0 1 (\<lambda>v. v) (\<lambda>s. s) (new_wrapper 1) (replicate 1024 (1, 1, [1 / 2]))
     = Inr (ex_wrapper (2 / 1000) 1024 1024) \<and>
   m_samplesSoFar (ex_wrapper (2 / 1000) 1024 1024) = 1024 \<and>
   m_nextMilestone (ex_wrapper (2 / 1000) 1024 1024) = 1024 \<and>
   rebuild_log (ex_wrapper (2 / 1000) 1024 1024) = []"
proof -
  have "feed 0 1 (\<lambda>v. v) (\<lambda>s. s) (ex_wrapper (2 / 1000) 0 0) (replicate 1024 (1, 1, [1 / 2]))
        = Inr (ex_wrapper (2 / 1000) 1024 1024)"
    using ex_wrapper_feed[of 0 1024 0 "2 / 1000"] by simp
  then show ?thesis
    unfolding ex_wrapper_new by (simp add: ex_wrapper_def)
qed

theorem rebuild_schedule_witness:
  "m_nextMilestone (ex_wrapper (6 / 10) 1024 1024) = 1024 \<and>
   rebuild_log (ex_wrapper (6 / 10) 1024 1024) = [] \<and>
   m_samplesSoFar ex_wrapper_rebuilt = 1025 \<and>
   rebuild_log ex_wrapper_rebuilt = [1025] \<and>
   m_nextMilestone ex_wrapper_rebuilt = 2048"
proof -
  have f: "feed 2 1 (\<lambda>v. v) (\<lambda>s. s) (ex_wrapper (6 / 10) 0 0) (replicate 1024 (1, 1, [1 / 2]))
           = Inr (ex_wrapper (6 / 10) 1024 1024)"
    using ex_wrapper_feed[of 0 1024 2 "6 / 10"] by simp
  have l: "length (replicate 1024 (1 :: real, 1 :: real, [1 / 2 :: real])) < 2 ^ 63"
    by simp
  have z: "m_samplesSoFar (ex_wrapper (6 / 10) 0 0) = 0"
    "m_nextMilestone (ex_wrapper (6 / 10) 0 0) = 1024" "rebuild_log (ex_wrapper (6 / 10) 0 0) = []"
    by (simp_all add: ex_wrapper_def)
  have m: "m_nextMilestone (ex_wrapper (6 / 10) 1024 1024) = 1024"
    "rebuild_log (ex_wrapper (6 / 10) 1024 1024) = []"
    by (simp_all add: ex_wrapper_def)
  from rebuild_schedule[OF z f ex_wrapper_rebuild l]
  show ?thesis
    unfolding m by simp
qed

subsection \<open>Trees in a pool\<close>









subsection \<open>Loops over the children\<close>


lemma fold_upt_cases:
  assumes "P 0 a"
    and "\<And>c s. c < n \<Longrightarrow> P c s \<Longrightarrow>
           (\<exists>s'. f c s = Inr s' \<and> P (Suc c) s') \<or> (\<exists>e. f c s = Inl e \<and> Q e)"
  shows "(\<exists>r. fold (\<lambda>x acc. err_bind acc (f x)) [0..<n] (Inr a) = Inr r \<and> P n r) \<or>
         (\<exists>e. fold (\<lambda>x acc. err_bind acc (f x)) [0..<n] (Inr a) = Inl e \<and> Q e)"
  using assms(2)
proof (induction n)
  case 0
  with assms(1) show ?case by simp
next
  case (Suc n)
  have "(\<exists>r. fold (\<lambda>x acc. err_bind acc (f x)) [0..<n] (Inr a) = Inr r \<and> P n r) \<or>
        (\<exists>e. fold (\<lambda>x acc. err_bind acc (f x)) [0..<n] (Inr a) = Inl e \<and> Q e)"
    using Suc.prems by (intro Suc.IH) auto
  then show ?case
  proof
    assume "\<exists>r. fold (\<lambda>x acc. err_bind acc (f x)) [0..<n] (Inr a) = Inr r \<and> P n r"
    then obtain r where r: "fold (\<lambda>x acc. err_bind acc (f x)) [0..<n] (Inr a) = Inr r" "P n r"
      by blast
    from Suc.prems[of n r] r(2)
    have "(\<exists>s'. f n r = Inr s' \<and> P (Suc n) s') \<or> (\<exists>e. f n r = Inl e \<and> Q e)" by simp
    with r(1) show ?thesis by auto
  next
    assume "\<exists>e. fold (\<lambda>x acc. err_bind acc (f x)) [0..<n] (Inr a) = Inl e \<and> Q e"
    then show ?thesis by auto
  qed
qed


subsection \<open>Bits of a child index\<close>

lemma or_push_bit_bound:
  assumes "0 \<le> c" and "c < 2 ^ d" and "slab = 0 \<or> slab = (1 :: int)"
  shows "0 \<le> c OR push_bit d slab \<and> c OR push_bit d slab < 2 ^ Suc d"
proof -
  have p0: "0 \<le> push_bit d slab"
    using assms(3) by auto
  have z: "(0 :: int) < 2 ^ d" by simp
  have "push_bit d slab \<le> 2 ^ d"
    using assms(3) by (auto simp: push_bit_eq_mult)
  then have "push_bit d slab < 2 * 2 ^ d"
    using z by linarith
  then have p1: "push_bit d slab < 2 ^ Suc d"
    by simp
  have "c < 2 * 2 ^ d"
    using assms(2) z by linarith
  then have c1: "c < 2 ^ Suc d"
    by simp
  have "c OR push_bit d slab < 2 ^ Suc d"
    by (rule OR_upper[OF assms(1) c1 p1])
  moreover have "0 \<le> c OR push_bit d slab"
    using assms(1) p0 by simp
  ultimately show ?thesis by blast
qed

lemma indexAt_dims_prefix:
  "0 \<le> snd (fold indexAt_dim [0..<d] (x, 0)) \<and> snd (fold indexAt_dim [0..<d] (x, 0)) < 2 ^ d"
proof (induction d)
  case 0
  then show ?case by simp
next
  case (Suc d)
  let ?s = "fold indexAt_dim [0..<d] (x, 0)"
  have "snd (indexAt_dim d ?s)
        = snd ?s OR push_bit d (if fst ?s ! d \<ge> 1 / 2 then 1 else 0)"
    by (simp add: indexAt_dim_def Let_def)
  moreover have "0 \<le> snd ?s OR push_bit d (if fst ?s ! d \<ge> 1 / 2 then 1 else 0) \<and>
                 snd ?s OR push_bit d (if fst ?s ! d \<ge> 1 / 2 then 1 else 0) < 2 ^ Suc d"
    using Suc.IH by (intro or_push_bit_bound) auto
  ultimately show ?case by simp
qed

lemma indexAt_dims_bound:
  "0 \<le> snd (indexAt_dims D x) \<and> snd (indexAt_dims D x) < 2 ^ D"
  unfolding indexAt_dims_def by (rule indexAt_dims_prefix)

lemma ordered_child:
  assumes "ordered D nodes" and "i < length nodes" and "\<not> isLeaf (nodes ! i)"
    and "0 \<le> c" and "c < 2 ^ D"
  shows "int i < children (nodes ! i) ! nat c \<and> children (nodes ! i) ! nat c < int (length nodes)"
proof -
  from assms(1,2) have l: "length (children (nodes ! i)) = 2 ^ D"
    by (simp add: ordered_def)
  have "nat c < 2 ^ D" using assms(4,5) by (simp add: nat_less_iff)
  with l have "children (nodes ! i) ! nat c \<in> set (children (nodes ! i))" by simp
  with assms(1,2,3) show ?thesis
    unfolding ordered_def by blast
qed

subsection \<open>\<^verbatim>\<open>indexAt\<close> on an ordered pool\<close>



subsection \<open>Pools with the same links\<close>




subsection \<open>\<^verbatim>\<open>depth\<close> on an ordered pool\<close>


subsection \<open>\<^verbatim>\<open>splatFiltered\<close> on an ordered pool\<close>



subsection \<open>\<^verbatim>\<open>sample\<close> on an ordered pool\<close>







subsection \<open>The index sets of a tree\<close>





subsection \<open>The number of nodes below a node\<close>






subsection \<open>Chains of boundaries\<close>




subsection \<open>The leaf case of build\<close>


subsection \<open>The loop of \<^verbatim>\<open>build\<close> over the children\<close>


subsection \<open>\<^verbatim>\<open>build\<close> makes a tree\<close>








subsection \<open>\<^verbatim>\<open>refine\<close> keeps a tree\<close>





subsection \<open>\<^verbatim>\<open>split\<close>\<close>




subsection \<open>What a split leaves\<close>


subsection \<open>A pool that has outgrown the 32-bit index\<close>







subsection \<open>\<^verbatim>\<open>refine\<close> on a pool within and beyond the 32-bit index\<close>




subsection \<open>Termination of \<^verbatim>\<open>refine\<close>\<close>











subsection \<open>Reachable trees\<close>









subsection \<open>The degenerate build\<close>

lemma build_leaf_empty:
  assumes "weight node = 0" and "0 \<le> density node" and "0 \<le> scale"
  shows "\<exists>r. build_leaf t node (length nn) (nn @ [node]) scale = Inr r \<and>
             length nn < length r \<and> take (length nn) r = nn \<and>
             weight (r ! length nn) = (if m_leafReweighting t then - 1 else 0)"
proof (cases "m_leafReweighting t")
  case True
  then show ?thesis using assms by (simp add: build_leaf_def)
next
  case False
  have "\<not> density node * scale < 0"
    using assms(2,3) by (simp add: not_less)
  with False show ?thesis
    using assms by (simp add: build_leaf_def Let_def markAsLeaf_def)
qed

lemma build_child_empty:
  assumes len: "length nn < length (newNodes s)"
    and pre: "take (length nn) (newNodes s) = nn"
    and vc: "validCount s = (if rw then 0 else int c)" and aw: "acc_weight s = 0"
    and r: "length (newNodes s) < length r" "take (length (newNodes s)) r = newNodes s"
      "weight (r ! length (newNodes s)) = (if rw then - 1 else 0)"
  shows "length nn < length (newNodes (build_child (length nn) c s r)) \<and>
         take (length nn) (newNodes (build_child (length nn) c s r)) = nn \<and>
         validCount (build_child (length nn) c s r) = (if rw then 0 else int (Suc c)) \<and>
         acc_weight (build_child (length nn) c s r) = 0"
proof -
  let ?r' = "r[length nn := (r ! length nn)
               \<lparr>children := (children (r ! length nn))[c := int32 (int (length (newNodes s)))]\<rparr>]"
  have w: "weight (?r' ! length (newNodes s)) = (if rw then - 1 else 0)"
    using len r(1,3) by simp
  have "take (length nn) r = take (length nn) (take (length (newNodes s)) r)"
    using len by (simp add: min_def)
  also have "\<dots> = nn" by (simp only: r(2) pre)
  finally have t: "take (length nn) ?r' = nn" by simp
  have l: "length nn < length ?r'" using len r(1) by simp
  show ?thesis
  proof (cases rw)
    case True
    with w have "\<not> weight (?r' ! length (newNodes s)) \<ge> 0" by simp
    then have "build_child (length nn) c s r = s\<lparr>newNodes := ?r'\<rparr>"
      by (simp add: build_child_def Let_def)
    with t l vc aw True show ?thesis by simp
  next
    case False
    with w have w0: "weight (?r' ! length (newNodes s)) = 0" by simp
    then have "build_child (length nn) c s r =
        s\<lparr>newNodes := ?r',
          acc_density := acc_density s + density (?r' ! length (newNodes s)),
          acc_value := acc_value s + val (?r' ! length (newNodes s)),
          acc_weight := acc_weight s + weight (?r' ! length (newNodes s)),
          validCount := validCount s + 1\<rparr>"
      by (simp add: build_child_def Let_def)
    with t l vc aw False w0 show ?thesis by simp
  qed
qed

lemma build_finish_empty:
  assumes len: "length nn < length (newNodes s)"
    and pre: "take (length nn) (newNodes s) = nn"
    and vc: "validCount s = (if m_leafReweighting t then 0 else int (Arity D))"
    and aw: "acc_weight s = 0"
  shows "length nn < length (build_finish D t (length nn) s) \<and>
         take (length nn) (build_finish D t (length nn) s) = nn \<and>
         weight (build_finish D t (length nn) s ! length nn)
           = (if m_leafReweighting t then - 1 else 0)"
proof (cases "m_leafReweighting t")
  case True
  with vc len pre show ?thesis by (simp add: build_finish_def Let_def)
next
  case False
  have "take (length nn) (take (Suc (length nn)) (newNodes s)) = nn"
    using pre by (simp add: min_def)
  with False len pre aw show ?thesis
    by (simp add: build_finish_def Let_def markAsLeaf_def)
qed

lemma build_rec_empty:
  assumes o: "ordered D (m_nodes t)"
    and lw: "\<forall>n \<in> set (m_nodes t). isLeaf n \<longrightarrow> weight n = 0 \<and> 0 \<le> density n"
  shows "0 \<le> index \<Longrightarrow> index < int (length (m_nodes t)) \<Longrightarrow>
         length (m_nodes t) - nat index \<le> fuel \<Longrightarrow> 0 \<le> scale \<Longrightarrow>
         \<exists>r. build_rec fuel D t index nn scale = Inr r \<and>
             length nn < length r \<and> take (length nn) r = nn \<and>
             weight (r ! length nn) = (if m_leafReweighting t then - 1 else 0)"
proof (induction fuel arbitrary: index nn scale)
  case 0
  then show ?case by simp
next
  case (Suc fuel)
  let ?node = "m_nodes t ! nat index"
  let ?rw = "m_leafReweighting t"
  have ix: "nat index < length (m_nodes t)" using Suc.prems by simp
  have na: "node_at (m_nodes t) index = Inr ?node"
    using Suc.prems by (simp add: node_at_def)
  show ?case
  proof (cases "isLeaf ?node")
    case True
    from lw ix True have "weight ?node = 0" "0 \<le> density ?node" by simp_all
    from build_leaf_empty[OF this Suc.prems(4), of t nn] na True
    show ?thesis by (simp add: Let_def)
  next
    case False
    let ?s0 = "\<lparr>newNodes = nn @ [?node], validCount = 0, acc_density = 0,
                 acc_weight = 0, acc_value = 0\<rparr>"
    let ?f = "\<lambda>child s. err_bind (build_rec fuel D t (children ?node ! child) (newNodes s)
                                     (scale * real (Arity D)))
                            (\<lambda>r. Inr (build_child (length nn) child s r))"
    let ?P = "\<lambda>c s. length nn < length (newNodes s) \<and> take (length nn) (newNodes s) = nn \<and>
                     validCount s = (if ?rw then 0 else int c) \<and> acc_weight s = 0"
    have sc: "0 \<le> scale * real (Arity D)" using Suc.prems(4) by simp
    have step: "(\<exists>s'. ?f c s = Inr s' \<and> ?P (Suc c) s') \<or> (\<exists>e. ?f c s = Inl e \<and> False)"
      if c: "c < Arity D" and P: "?P c s" for c s
    proof -
      from c have "int c < 2 ^ D" by (simp add: Arity_def flip: of_nat_less_iff)
      from ordered_child[OF o ix False _ this]
      have ch: "int (nat index) < children ?node ! c" "children ?node ! c < int (length (m_nodes t))"
        by simp_all
      then have a: "0 \<le> children ?node ! c"
        "length (m_nodes t) - nat (children ?node ! c) \<le> fuel"
        using Suc.prems by linarith+
      from Suc.IH[OF a(1) ch(2) a(2) sc, of "newNodes s"]
      obtain r where r: "build_rec fuel D t (children ?node ! c) (newNodes s)
                           (scale * real (Arity D)) = Inr r"
        "length (newNodes s) < length r" "take (length (newNodes s)) r = newNodes s"
        "weight (r ! length (newNodes s)) = (if ?rw then - 1 else 0)" by blast
      from P have p: "length nn < length (newNodes s)" "take (length nn) (newNodes s) = nn"
        "validCount s = (if ?rw then 0 else int c)" "acc_weight s = 0" by blast+
      from build_child_empty[OF p r(2,3,4)] r(1) show ?thesis by simp
    qed
    have "?P 0 ?s0" by simp
    from fold_upt_cases[of ?P ?s0 "Arity D" ?f "\<lambda>e. False", OF this step]
    obtain s where s: "fold (\<lambda>child acc. err_bind acc (?f child)) [0..<Arity D] (Inr ?s0) = Inr s"
      and P: "?P (Arity D) s" by blast
    from P have p: "length nn < length (newNodes s)" "take (length nn) (newNodes s) = nn"
      "validCount s = (if ?rw then 0 else int (Arity D))" "acc_weight s = 0" by blast+
    have "build_rec (Suc fuel) D t index nn scale = Inr (build_finish D t (length nn) s)"
      using na False s by (simp add: Let_def)
    with build_finish_empty[OF p] show ?thesis by simp
  qed
qed

text \<open>
  Claim C7. When the first pass of build leaves a root with weight at most 0 or with
  density 0, build returns the uniform tree. A tree that has received no deposit is
  such a tree: if the pool is ordered and every leaf has weight 0 (and a density that
  is not negative), the first pass returns with a root of weight -1 under leaf
  reweighting and 0 without, and build returns the uniform tree. The uniform tree has
  one node, a leaf of density 1, value 0 (the default value) and weight 0, its pdf is
  1 at every point, and the settings are kept.
\<close>

theorem build_degenerate_uniform:
  assumes "well_typed D (m_nodes t)"
  shows "(\<forall>nn. build_rec (Suc (length (m_nodes t))) D t 0 [] 1 = Inr nn \<and>
               (weight (nn ! 0) \<le> 0 \<or> density (nn ! 0) = 0) \<longrightarrow>
               build D t = Inr (setUniform D t)) \<and>
         (ordered D (m_nodes t) \<and>
          (\<forall>n \<in> set (m_nodes t). isLeaf n \<longrightarrow> weight n = 0 \<and> 0 \<le> density n) \<longrightarrow>
            (\<exists>nn. build_rec (Suc (length (m_nodes t))) D t 0 [] 1 = Inr nn \<and>
                  weight (nn ! 0) \<le> 0) \<and>
            build D t = Inr (setUniform D t)) \<and>
         (\<exists>r. setUniform D t = t\<lparr>m_nodes := [r]\<rparr> \<and> isLeaf r \<and> density r = 1 \<and> val r = 0 \<and>
              weight r = 0 \<and> (\<forall>x. pdf D (setUniform D t) x = Inr 1))"
proof (intro conjI allI impI)
  fix nn
  assume "build_rec (Suc (length (m_nodes t))) D t 0 [] 1 = Inr nn \<and>
          (weight (nn ! 0) \<le> 0 \<or> density (nn ! 0) = 0)"
  then show "build D t = Inr (setUniform D t)" by (auto simp: build_def)
next
  assume a: "ordered D (m_nodes t) \<and>
             (\<forall>n \<in> set (m_nodes t). isLeaf n \<longrightarrow> weight n = 0 \<and> 0 \<le> density n)"
  then have o: "ordered D (m_nodes t)"
    and lw: "\<forall>n \<in> set (m_nodes t). isLeaf n \<longrightarrow> weight n = 0 \<and> 0 \<le> density n" by blast+
  from o have ne: "(0 :: int) < int (length (m_nodes t))" by (simp add: ordered_def)
  have fu: "length (m_nodes t) - nat 0 \<le> Suc (length (m_nodes t))" by simp
  from build_rec_empty[OF o lw order_refl ne fu, of 1 "[]"]
  obtain r where r: "build_rec (Suc (length (m_nodes t))) D t 0 [] 1 = Inr r"
    and w: "weight (r ! 0) = (if m_leafReweighting t then - 1 else 0)" by auto
  from w have w0: "weight (r ! 0) \<le> 0" by simp
  with r show "\<exists>nn. build_rec (Suc (length (m_nodes t))) D t 0 [] 1 = Inr nn \<and> weight (nn ! 0) \<le> 0"
    by blast
  from r w0 show "build D t = Inr (setUniform D t)" by (simp add: build_def)
next
  obtain r where r: "isLeaf r" "density r = 1" "val r = 0" "weight r = 0"
      "setUniform D t = t\<lparr>m_nodes := [r]\<rparr>"
    using setUniform_root[OF assms(1)] by blast
  have "pdf D (setUniform D t) x = Inr 1" for x
    unfolding r(5) using r(1,2) by (simp add: pdf_single_leaf)
  with r show "\<exists>r. setUniform D t = t\<lparr>m_nodes := [r]\<rparr> \<and> isLeaf r \<and> density r = 1 \<and> val r = 0 \<and>
              weight r = 0 \<and> (\<forall>x. pdf D (setUniform D t) x = Inr 1)"
    by blast
qed

text \<open>
  The instance: the one-dimensional tree of three nodes that \<^verbatim>\<open>refine\<close> makes of the
  fresh tree with split threshold 0.6, before any deposit. The first pass gives every
  node the weight -1, and build returns the single uniform leaf.
\<close>

theorem build_degenerate_uniform_witness:
  "build_rec (Suc (length (m_nodes (ex1_refined True)))) 1 (ex1_refined True) 0 [] 1
     = Inr [\<lparr>children = [1, 2], density = 1, val = 0, weight = - 1\<rparr>,
            \<lparr>children = [0, 0], density = 0, val = 0, weight = - 1\<rparr>,
            \<lparr>children = [0, 0], density = 0, val = 0, weight = - 1\<rparr>] \<and>
   build 1 (ex1_refined True) = Inr (setUniform 1 (ex1_refined True)) \<and>
   m_nodes (setUniform 1 (ex1_refined True))
     = [\<lparr>children = [0, 2], density = 1, val = 0, weight = 0\<rparr>] \<and>
   (\<forall>x. pdf 1 (setUniform 1 (ex1_refined True)) x = Inr 1)"
proof -
  have ty: "well_typed 1 (m_nodes (ex1_refined True))"
    by (simp add: well_typed_def ex1_refined_def Arity_def)
  have o: "ordered 1 (m_nodes (ex1_refined True))"
    by (simp add: ordered_def ex1_refined_def isLeaf_def less_Suc_eq numeral_3_eq_3)
  have lw: "\<forall>n \<in> set (m_nodes (ex1_refined True)). isLeaf n \<longrightarrow> weight n = 0 \<and> 0 \<le> density n"
    by (simp add: ex1_refined_def)
  have a: "build_rec (Suc (length (m_nodes (ex1_refined True)))) 1 (ex1_refined True) 0 [] 1
     = Inr [\<lparr>children = [1, 2], density = 1, val = 0, weight = - 1\<rparr>,
            \<lparr>children = [0, 0], density = 0, val = 0, weight = - 1\<rparr>,
            \<lparr>children = [0, 0], density = 0, val = 0, weight = - 1\<rparr>]"
    by (simp add: ex1_refined_def eval_simps eval_nat_numeral cong: eval_congs)
  have m: "m_nodes (setUniform 1 (ex1_refined True))
     = [\<lparr>children = [0, 2], density = 1, val = 0, weight = 0\<rparr>]"
    by (simp add: ex1_refined_def eval_simps)
  from build_degenerate_uniform[OF ty] o lw a m show ?thesis by blast
qed

subsection \<open>Deposits without the filter\<close>

lemma indexAt_dims_fold:
  assumes "k \<le> length x"
  shows "length (fst (fold indexAt_dim [0..<k] (x, 0))) = length x \<and>
         (\<forall>d < k. fst (fold indexAt_dim [0..<k] (x, 0)) ! d
                     = (if x ! d \<ge> 1 / 2 then (x ! d - 1 / 2) * 2 else x ! d * 2)) \<and>
         (\<forall>d \<ge> k. fst (fold indexAt_dim [0..<k] (x, 0)) ! d = x ! d) \<and>
         (\<forall>d. bit (snd (fold indexAt_dim [0..<k] (x, 0))) d \<longleftrightarrow> d < k \<and> x ! d \<ge> 1 / 2)"
  using assms
proof (induction k)
  case 0
  then show ?case by simp
next
  case (Suc k)
  let ?s = "fold indexAt_dim [0..<k] (x, 0)"
  from Suc have IH: "length (fst ?s) = length x"
    "\<And>d. d < k \<Longrightarrow> fst ?s ! d = (if x ! d \<ge> 1 / 2 then (x ! d - 1 / 2) * 2 else x ! d * 2)"
    "\<And>d. k \<le> d \<Longrightarrow> fst ?s ! d = x ! d"
    "\<And>d. bit (snd ?s) d \<longleftrightarrow> d < k \<and> x ! d \<ge> 1 / 2"
    by simp_all
  have k: "k < length (fst ?s)" using Suc.prems IH(1) by simp
  have xk: "fst ?s ! k = x ! k" by (rule IH(3)) simp
  show ?case
  proof (cases "x ! k \<ge> 1 / 2")
    case True
    then have e: "indexAt_dim k ?s
        = ((fst ?s)[k := (x ! k - 1 / 2) * 2], snd ?s OR push_bit k 1)"
      using k by (simp add: indexAt_dim_def Let_def xk)
    have b: "bit (snd ?s OR push_bit k (1 :: int)) d \<longleftrightarrow> d < Suc k \<and> x ! d \<ge> 1 / 2" for d
      using True by (auto simp: bit_or_iff bit_exp_iff IH(4) less_Suc_eq)
    show ?thesis
      using True k IH(1,2,3) b
      by (simp add: e nth_list_update less_Suc_eq)
  next
    case False
    then have e: "indexAt_dim k ?s = ((fst ?s)[k := x ! k * 2], snd ?s)"
      using k by (simp add: indexAt_dim_def Let_def xk)
    have b: "bit (snd ?s) d \<longleftrightarrow> d < Suc k \<and> x ! d \<ge> 1 / 2" for d
      using False by (auto simp: IH(4) less_Suc_eq)
    show ?thesis
      using False k IH(1,2,3) b
      by (simp add: e nth_list_update less_Suc_eq)
  qed
qed

lemma childMin_of_fold:
  fixes lo :: "real list"
  assumes "k \<le> length lo"
  shows "length (fold (\<lambda>d cm. if int c AND push_bit d 1 \<noteq> 0 then cm[d := cm ! d + cs] else cm)
                    [0..<k] lo) = length lo \<and>
         (\<forall>d < k. fold (\<lambda>d cm. if int c AND push_bit d 1 \<noteq> 0 then cm[d := cm ! d + cs] else cm)
                     [0..<k] lo ! d = lo ! d + (if bit (int c) d then cs else 0)) \<and>
         (\<forall>d \<ge> k. fold (\<lambda>d cm. if int c AND push_bit d 1 \<noteq> 0 then cm[d := cm ! d + cs] else cm)
                     [0..<k] lo ! d = lo ! d)"
  using assms
proof (induction k)
  case 0
  then show ?case by simp
next
  case (Suc k)
  let ?f = "\<lambda>d cm. if int c AND push_bit d 1 \<noteq> 0 then cm[d := cm ! d + cs] else cm"
  let ?m = "fold ?f [0..<k] lo"
  from Suc have IH: "length ?m = length lo"
    "\<And>d. d < k \<Longrightarrow> ?m ! d = lo ! d + (if bit (int c) d then cs else 0)"
    "\<And>d. k \<le> d \<Longrightarrow> ?m ! d = lo ! d"
    by simp_all
  have k: "k < length ?m" using Suc.prems IH(1) by simp
  have mk: "?m ! k = lo ! k" by (rule IH(3)) simp
  have bk: "(int c AND 2 ^ k \<noteq> 0) = bit (int c) k"
    using bit_iff_and_push_bit_not_eq_0[of "int c" k] by simp
  have e: "fold ?f [0..<Suc k] lo = (if bit (int c) k then ?m[k := lo ! k + cs] else ?m)"
    using mk by (simp add: bk)
  show ?case
    unfolding e using k IH by (simp add: nth_list_update less_Suc_eq)
qed

lemma descend_cell:
  assumes lx: "length y = D" and ll: "length lo = D" and pos: "0 < sz"
    and inv: "\<forall>d < D. x ! d = lo ! d + sz * y ! d \<and> 0 \<le> y ! d \<and> y ! d < 1"
  shows "length (fst (indexAt_dims D y)) = D \<and>
         length (childMin_of D lo (sz / 2) (nat (snd (indexAt_dims D y)))) = D \<and>
         (\<forall>d < D. x ! d = childMin_of D lo (sz / 2) (nat (snd (indexAt_dims D y))) ! d
                          + sz / 2 * fst (indexAt_dims D y) ! d \<and>
                   0 \<le> fst (indexAt_dims D y) ! d \<and> fst (indexAt_dims D y) ! d < 1)"
proof -
  let ?c = "nat (snd (indexAt_dims D y))"
  from indexAt_dims_fold[of D y] lx
  have f: "length (fst (indexAt_dims D y)) = D"
    "\<And>d. d < D \<Longrightarrow> fst (indexAt_dims D y) ! d
                = (if y ! d \<ge> 1 / 2 then (y ! d - 1 / 2) * 2 else y ! d * 2)"
    "\<And>d. bit (snd (indexAt_dims D y)) d \<longleftrightarrow> d < D \<and> y ! d \<ge> 1 / 2"
    unfolding indexAt_dims_def by simp_all
  from indexAt_dims_bound[of D y] have ic: "int ?c = snd (indexAt_dims D y)" by simp
  from childMin_of_fold[of D lo ?c "sz / 2"] ll
  have m: "length (childMin_of D lo (sz / 2) ?c) = D"
    "\<And>d. d < D \<Longrightarrow> childMin_of D lo (sz / 2) ?c ! d
                = lo ! d + (if y ! d \<ge> 1 / 2 then sz / 2 else 0)"
    unfolding childMin_of_def ic by (simp_all add: f(3))
  have "x ! d = childMin_of D lo (sz / 2) ?c ! d + sz / 2 * fst (indexAt_dims D y) ! d \<and>
        0 \<le> fst (indexAt_dims D y) ! d \<and> fst (indexAt_dims D y) ! d < 1" if d: "d < D" for d
  proof -
    from inv d have i: "x ! d = lo ! d + sz * y ! d" "0 \<le> y ! d" "y ! d < 1" by simp_all
    show ?thesis
      unfolding m(2)[OF d] f(2)[OF d] using i by (simp add: field_simps)
  qed
  with f(1) m(1) show ?thesis by blast
qed

lemma indexAt_loop_cell:
  "ordered D nodes \<Longrightarrow> 0 \<le> index \<Longrightarrow> index < int (length nodes) \<Longrightarrow>
   cell D nodes index lo sz \<Longrightarrow> length y = D \<Longrightarrow> length lo = D \<Longrightarrow> 0 < sz \<Longrightarrow>
   \<forall>d < D. x ! d = lo ! d + sz * y ! d \<and> 0 \<le> y ! d \<and> y ! d < 1 \<Longrightarrow>
   \<exists>i d lo' sz'. indexAt_loop D nodes y index dep = Inr (i, d) \<and>
      cell D nodes i lo' sz' \<and> inside D lo' sz' x"
proof (induction D nodes y index dep arbitrary: lo sz rule: indexAt_loop.induct)
  case (1 D nodes y index dep)
  show ?case
  proof (cases "isLeaf (nodes ! nat index)")
    case True
    have "inside D lo sz x"
      unfolding inside_def
    proof (intro allI impI)
      fix d assume d: "d < D"
      with "1.prems"(8) have i: "x ! d = lo ! d + sz * y ! d" "0 \<le> y ! d" "y ! d < 1"
        by simp_all
      from i(2) "1.prems"(7) have "0 \<le> sz * y ! d" by simp
      moreover from i(3) "1.prems"(7) have "sz * y ! d < sz * 1"
        by (simp only: mult_less_cancel_left_pos)
      ultimately show "lo ! d \<le> x ! d \<and> x ! d < lo ! d + sz" using i(1) by simp
    qed
    with True "1.prems"(2,3,4) show ?thesis
      by (subst indexAt_loop.simps) auto
  next
    case False
    let ?c = "nat (snd (indexAt_dims D y))"
    let ?new = "children (nodes ! nat index) ! ?c"
    have ix: "nat index < length nodes" using "1.prems" by simp
    from ordered_child[OF "1.prems"(1) ix False] indexAt_dims_bound[of D y]
    have new: "int (nat index) < ?new" "?new < int (length nodes)" by auto
    then have gt: "index < ?new" using "1.prems" by simp
    then have nn: "0 \<le> ?new" using "1.prems"(2) by simp
    from indexAt_dims_bound[of D y] have "?c < 2 ^ D"
      by (simp add: nat_less_iff)
    then have cA: "?c < Arity D" by (simp add: Arity_def)
    have c': "cell D nodes ?new (childMin_of D lo (sz / 2) ?c) (sz / 2)"
      by (rule cell.child[OF "1.prems"(4,2,3) False cA])
    from descend_cell[OF "1.prems"(5,6,7,8)]
    have d: "length (fst (indexAt_dims D y)) = D"
      "length (childMin_of D lo (sz / 2) ?c) = D"
      "\<forall>d < D. x ! d = childMin_of D lo (sz / 2) ?c ! d + sz / 2 * fst (indexAt_dims D y) ! d \<and>
                0 \<le> fst (indexAt_dims D y) ! d \<and> fst (indexAt_dims D y) ! d < 1"
      by blast+
    have s2: "0 < sz / 2" using "1.prems"(7) by simp
    have rng: "0 \<le> index \<and> index < int (length nodes)" using "1.prems" by simp
    from "1.IH"[OF _ False refl _ "1.prems"(1) nn new(2) c' d(1,2) s2 d(3)] rng gt
    obtain i dd lo' sz' where
      r: "indexAt_loop D nodes (fst (indexAt_dims D y)) ?new (dep + 1) = Inr (i, dd)"
        "cell D nodes i lo' sz'" "inside D lo' sz' x"
      by auto
    have "indexAt_loop D nodes y index dep = Inr (i, dd)"
      using rng False gt r(1) by (subst indexAt_loop.simps) (simp add: Let_def)
    with r(2,3) show ?thesis by blast
  qed
qed

lemma indexAt_cell:
  assumes "ordered D (m_nodes t)" and "length x = D" and "\<forall>d < D. 0 \<le> x ! d \<and> x ! d < 1"
  shows "\<exists>i d lo sz. indexAt D t x = Inr (i, d) \<and> cell D (m_nodes t) i lo sz \<and>
           inside D lo sz x"
proof -
  from assms(1) have ne: "(0 :: int) < int (length (m_nodes t))" by (simp add: ordered_def)
  have inv: "\<forall>d < D. x ! d = replicate D 0 ! d + 1 * x ! d \<and> 0 \<le> x ! d \<and> x ! d < 1"
    using assms(3) by simp
  from indexAt_loop_cell[OF assms(1) order_refl ne cell.root assms(2) _ zero_less_one inv, of 0]
  show ?thesis by (simp add: indexAt_def)
qed

lemma node_splat_rounded:
  assumes "0 \<le> w" and "0 \<le> v"
  shows "node_splat tgt n v w sm =
     (let wt = Float_rnd (weight n + w);
          vw = Float_rnd (v * w);
          vl = Float_rnd (val n + vw);
          tg = (if sm then Float_rnd (tgt v * tgt v) else tgt v);
          tw = Float_rnd (tg * w);
          dn = Float_rnd (density n + tw)
      in if \<bar>wt\<bar> < 2 ^ 128 \<and> \<bar>vw\<bar> < 2 ^ 128 \<and> \<bar>vl\<bar> < 2 ^ 128 \<and> (sm \<longrightarrow> \<bar>tg\<bar> < 2 ^ 128) \<and>
            \<bar>tw\<bar> < 2 ^ 128 \<and> \<bar>dn\<bar> < 2 ^ 128
         then Inr (n\<lparr>weight := wt, val := vl, density := dn\<rparr>)
         else Inl NotFinite)"
  using assms by (simp add: node_splat_def Float_of_def Let_def)

text \<open>
  Claim C10. Let the pool be ordered, filtering be off, the point \<open>x\<close> in the unit
  cube, value and weight not negative. Then \<^verbatim>\<open>indexAt\<close> finds a leaf whose cell
  contains \<open>x\<close>, and \<^verbatim>\<open>splat\<close> changes that node and nothing else: the pool keeps its
  length, every other node and the children of the leaf stay as they were, and so do
  the settings. The weight of the leaf becomes the sum of the old weight and the
  weight, rounded to single precision; its value the rounded sum of the old value
  and the rounded product of value and weight; its density the rounded sum of the
  old density and the rounded product of the target (its rounded square in
  second-moment mode) and the weight. The sums are not exact: when one of the
  rounded numbers is beyond the largest finite one, the model stops.
\<close>

theorem splat_unfiltered_one_leaf:
  assumes "ordered D (m_nodes t)" and "\<not> m_doFiltering t" and "length x = D"
    and "\<forall>d < D. 0 \<le> x ! d \<and> x ! d < 1" and "0 \<le> w" and "0 \<le> v"
  shows "\<exists>i d lo sz.
           indexAt D t x = Inr (i, d) \<and> cell D (m_nodes t) i lo sz \<and> inside D lo sz x \<and>
           0 \<le> i \<and> i < int (length (m_nodes t)) \<and> isLeaf (m_nodes t ! nat i) \<and>
           splat D tgt t x v w =
             (let n = m_nodes t ! nat i;
                  wt = Float_rnd (weight n + w);
                  vw = Float_rnd (v * w);
                  vl = Float_rnd (val n + vw);
                  tg = (if m_secondMoment t then Float_rnd (tgt v * tgt v) else tgt v);
                  tw = Float_rnd (tg * w);
                  dn = Float_rnd (density n + tw)
              in if \<bar>wt\<bar> < 2 ^ 128 \<and> \<bar>vw\<bar> < 2 ^ 128 \<and> \<bar>vl\<bar> < 2 ^ 128 \<and>
                    (m_secondMoment t \<longrightarrow> \<bar>tg\<bar> < 2 ^ 128) \<and> \<bar>tw\<bar> < 2 ^ 128 \<and> \<bar>dn\<bar> < 2 ^ 128
                 then Inr (t\<lparr>m_nodes :=
                              (m_nodes t)[nat i := n\<lparr>weight := wt, val := vl, density := dn\<rparr>]\<rparr>)
                 else Inl NotFinite)"
proof -
  from indexAt_cell[OF assms(1,3,4)]
  obtain i d lo sz where ia: "indexAt D t x = Inr (i, d)"
    and c: "cell D (m_nodes t) i lo sz" "inside D lo sz x" by blast
  from ia have leaf: "0 \<le> i \<and> i < int (length (m_nodes t)) \<and> isLeaf (m_nodes t ! nat i)"
    unfolding indexAt_def by (auto dest: indexAt_loop_leaf)
  have "splat D tgt t x v w =
          err_bind (node_splat tgt (m_nodes t ! nat i) v w (m_secondMoment t))
            (\<lambda>n. Inr (t\<lparr>m_nodes := (m_nodes t)[nat i := n]\<rparr>))"
    using assms(2) ia by (simp add: splat_def)
  also have "\<dots> =
             (let n = m_nodes t ! nat i;
                  wt = Float_rnd (weight n + w);
                  vw = Float_rnd (v * w);
                  vl = Float_rnd (val n + vw);
                  tg = (if m_secondMoment t then Float_rnd (tgt v * tgt v) else tgt v);
                  tw = Float_rnd (tg * w);
                  dn = Float_rnd (density n + tw)
              in if \<bar>wt\<bar> < 2 ^ 128 \<and> \<bar>vw\<bar> < 2 ^ 128 \<and> \<bar>vl\<bar> < 2 ^ 128 \<and>
                    (m_secondMoment t \<longrightarrow> \<bar>tg\<bar> < 2 ^ 128) \<and> \<bar>tw\<bar> < 2 ^ 128 \<and> \<bar>dn\<bar> < 2 ^ 128
                 then Inr (t\<lparr>m_nodes :=
                              (m_nodes t)[nat i := n\<lparr>weight := wt, val := vl, density := dn\<rparr>]\<rparr>)
                 else Inl NotFinite)"
    unfolding node_splat_rounded[OF assms(5,6)] by (simp add: Let_def)
  finally show ?thesis using ia c leaf by blast
qed

text \<open>
  The instance: the tree of depth 2 and the point \<open>5/8\<close>, which lies in the cell
  \<open>[1/2, 3/4)\<close> of the leaf at index 3; the leaf held the density 1, the value 2 and
  the weight 3 and receives the value 3 with weight 2.
\<close>

theorem splat_unfiltered_one_leaf_witness:
  "indexAt 1 ex1_deep [5 / 8] = Inr (3, 2) \<and>
   cell 1 (m_nodes ex1_deep) 3 [1 / 2] (1 / 4) \<and> inside 1 [1 / 2] (1 / 4) [5 / 8] \<and>
   isLeaf (m_nodes ex1_deep ! 3) \<and>
   splat 1 (\<lambda>v. v) ex1_deep [5 / 8] 3 2
     = Inr (ex1_deep\<lparr>m_nodes := (m_nodes ex1_deep)
              [3 := \<lparr>children = [0, 0], density = 7, val = 8, weight = 5\<rparr>]\<rparr>)"
proof -
  have o: "ordered 1 (m_nodes ex1_deep)"
    by (simp add: ordered_def ex1_deep_def isLeaf_def less_Suc_eq eval_nat_numeral)
  have nf: "\<not> m_doFiltering ex1_deep" by (simp add: ex1_deep_def)
  have x: "\<forall>d < 1. 0 \<le> [5 / 8 :: real] ! d \<and> [5 / 8 :: real] ! d < 1" by simp
  have ix: "indexAt 1 ex1_deep [5 / 8] = Inr (3, 2)"
    by (simp add: ex1_deep_def eval_simps)
  have c0: "cell 1 (m_nodes ex1_deep) 0 [0] 1"
    using cell.root[of 1 "m_nodes ex1_deep"] by simp
  have c2: "cell 1 (m_nodes ex1_deep) 2 [1 / 2] (1 / 2)"
    using cell.child[OF c0, of 1] by (simp add: ex1_deep_def eval_simps)
  have c3: "cell 1 (m_nodes ex1_deep) 3 [1 / 2] (1 / 4)"
    using cell.child[OF c2, of 0] by (simp add: ex1_deep_def eval_simps)
  have ins: "inside 1 [1 / 2] (1 / 4) [5 / 8]" by (simp add: inside_def)
  have f: "Float_rnd 5 = 5" "Float_rnd 6 = 6" "Float_rnd 8 = 8" "Float_rnd 7 = 7"
    using Float_rnd_int[of 5] Float_rnd_int[of 6] Float_rnd_int[of 8] Float_rnd_int[of 7]
    by simp_all
  have len: "length [5 / 8 :: real] = 1" by simp
  have w: "(0 :: real) \<le> 2" and v: "(0 :: real) \<le> 3" by simp_all
  from splat_unfiltered_one_leaf[OF o nf len x w v, of "\<lambda>v. v"]
  obtain i d lo sz where
    ia: "indexAt 1 ex1_deep [5 / 8] = Inr (i, d)" and li: "isLeaf (m_nodes ex1_deep ! nat i)" and
    s: "splat 1 (\<lambda>v. v) ex1_deep [5 / 8] 3 2 =
       (let n = m_nodes ex1_deep ! nat i;
            wt = Float_rnd (weight n + 2);
            vw = Float_rnd (3 * 2);
            vl = Float_rnd (val n + vw);
            tg = (if m_secondMoment ex1_deep then Float_rnd (3 * 3) else 3);
            tw = Float_rnd (tg * 2);
            dn = Float_rnd (density n + tw)
        in if \<bar>wt\<bar> < 2 ^ 128 \<and> \<bar>vw\<bar> < 2 ^ 128 \<and> \<bar>vl\<bar> < 2 ^ 128 \<and>
              (m_secondMoment ex1_deep \<longrightarrow> \<bar>tg\<bar> < 2 ^ 128) \<and> \<bar>tw\<bar> < 2 ^ 128 \<and> \<bar>dn\<bar> < 2 ^ 128
           then Inr (ex1_deep\<lparr>m_nodes :=
                        (m_nodes ex1_deep)[nat i := n\<lparr>weight := wt, val := vl, density := dn\<rparr>]\<rparr>)
           else Inl NotFinite)"
    by blast
  from ia ix have i: "nat i = 3" by simp
  from li have l: "isLeaf (m_nodes ex1_deep ! 3)" by (simp only: i)
  have "splat 1 (\<lambda>v. v) ex1_deep [5 / 8] 3 2
     = Inr (ex1_deep\<lparr>m_nodes := (m_nodes ex1_deep)
              [3 := \<lparr>children = [0, 0], density = 7, val = 8, weight = 5\<rparr>]\<rparr>)"
    unfolding s i by (simp add: ex1_deep_def Let_def f)
  with ix c3 ins l show ?thesis by blast
qed

text \<open>
  Single precision holds no integer between \<open>2 ^ 24\<close> and \<open>2 ^ 24 + 2\<close>. A first deposit
  of weight \<open>2 ^ 24\<close> into the fresh tree leaves the weight \<open>2 ^ 24\<close>; a second deposit
  of value 1 and weight 1 returns the tree as it was: the weight has not grown by 1.
\<close>

theorem splat_unfiltered_rounding_counterexample:
  "splat 1 (\<lambda>v. v) ((new_tree 1)\<lparr>m_doFiltering := False\<rparr>) [1 / 2] 1 16777216 = Inr ex1_heavy \<and>
   splat 1 (\<lambda>v. v) ex1_heavy [1 / 2] 1 1 = Inr ex1_heavy \<and>
   weight (m_nodes ex1_heavy ! 0) = 16777216"
  by (simp add: ex1_heavy_def eval_simps Float_of_16777217 eval_nat_numeral cong: eval_congs)

end
